theory Spec2Isabelle
  imports Complex_Main "HOL-Library.Word" "HOL-Library.Sublist" "HOL-Library.Log_Nat"
begin

section \<open>JavaScript strings\<close>

text \<open>
  A JavaScript string is a sequence of UTF-16 code units; \<open>length\<close>, \<open>slice\<close> and
  \<open>includes\<close> all count code units. ASCII literals of the source are written with
  \<open>ascii\<close>, the others as their code units.
\<close>

type_synonym jsstring = "16 word list"

definition ascii :: "string \<Rightarrow> jsstring" where
  "ascii s = map (\<lambda>c. of_nat (of_char c)) s"

text \<open>\<open>s.includes(w)\<close>: \<open>w\<close> occurs in \<open>s\<close> as a contiguous run.\<close>

fun js_includes :: "'a list \<Rightarrow> 'a list \<Rightarrow> bool" where
  "js_includes [] w = (w = [])"
| "js_includes (c # cs) w = (prefix w (c # cs) \<or> js_includes cs w)"

text \<open>\<open>s.slice(0, e)\<close> for an integer \<open>e\<close>: a negative end counts from the end of the string.\<close>

definition js_slice0 :: "'a list \<Rightarrow> int \<Rightarrow> 'a list" where
  "js_slice0 s e = (if e < 0 then take (nat (int (length s) + e)) s else take (nat e) s)"

text \<open>Truthiness of an optional string: \<open>undefined\<close>, \<open>null\<close> and \<open>""\<close> are falsy.\<close>

definition truthy :: "jsstring option \<Rightarrow> bool" where
  "truthy x = (case x of None \<Rightarrow> False | Some s \<Rightarrow> s \<noteq> [])"

text \<open>\<open>x || d\<close> on an optional string.\<close>

definition or_else :: "jsstring option \<Rightarrow> jsstring \<Rightarrow> jsstring" where
  "or_else x d = (case x of None \<Rightarrow> d | Some s \<Rightarrow> if s = [] then d else s)"

section \<open>JavaScript numbers\<close>

text \<open>
  A finite JavaScript number is a double, which is a rational; \<open>NaN\<close> and the
  infinities are not modelled. An operation returns the double nearest to the exact
  result, the even one of two that are as near. The doubles around a value \<open>x\<close> with
  \<open>2 ^ e \<le> |x| < 2 ^ (e + 1)\<close> are the multiples of \<open>2 ^ (e - 52)\<close>. (The results
  met here, a double less one, are never subnormal unless exact.)
\<close>

type_synonym jsnum = rat

definition pow2 :: "int \<Rightarrow> rat" where
  "pow2 e = (if 0 \<le> e then 2 ^ nat e else 1 / 2 ^ nat (- e))"

text \<open>The integer nearest to \<open>y\<close>, the even one of two that are as near.\<close>

definition round_half_even :: "rat \<Rightarrow> int" where
  "round_half_even y =
     (let f = \<lfloor>y\<rfloor>; d = y - of_int f
      in if d < 1 / 2 then f else if 1 / 2 < d then f + 1 else if even f then f else f + 1)"

text \<open>For \<open>a > 0\<close>, the \<open>e\<close> with \<open>2 ^ e \<le> a < 2 ^ (e + 1)\<close>, from the bit lengths of its fraction.\<close>

definition binary_exponent :: "rat \<Rightarrow> int" where
  "binary_exponent a =
     (let (p, q) = quotient_of a;
          e0 = bitlen p - bitlen q
      in if pow2 e0 \<le> a then e0 else e0 - 1)"

definition round_double :: "rat \<Rightarrow> jsnum" where
  "round_double x =
     (if x = 0 then 0
      else let ulp = pow2 (binary_exponent \<bar>x\<bar> - 52)
           in of_int (round_half_even (x / ulp)) * ulp)"

text \<open>\<open>x - y\<close> on JavaScript numbers.\<close>

definition js_minus :: "jsnum \<Rightarrow> jsnum \<Rightarrow> jsnum" where
  "js_minus x y = round_double (x - y)"

text \<open>The integer a number stands for as an index: its fraction is dropped.\<close>

definition js_trunc :: "jsnum \<Rightarrow> int" where
  "js_trunc x = (if x < 0 then \<lceil>x\<rceil> else \<lfloor>x\<rfloor>)"

section \<open>Text columns\<close>

text \<open>
  A string bound to a \<open>TEXT\<close> column is stored as UTF-8 and read back from it: a
  surrogate that is not half of a pair comes back as \<open>U+FFFD\<close>. The strings of a
  request and of the environment are taken to have no such surrogate, so they are stored
  as they are; \<open>slice\<close> can leave one at its cut.
\<close>

definition high_surrogate :: "16 word \<Rightarrow> bool" where
  "high_surrogate c = (0xD800 \<le> c \<and> c \<le> 0xDBFF)"

definition low_surrogate :: "16 word \<Rightarrow> bool" where
  "low_surrogate c = (0xDC00 \<le> c \<and> c \<le> 0xDFFF)"

fun sqlite_text :: "jsstring \<Rightarrow> jsstring" where
  "sqlite_text [] = []"
| "sqlite_text [c] = (if high_surrogate c \<or> low_surrogate c then [0xFFFD] else [c])"
| "sqlite_text (c # c' # cs) =
     (if high_surrogate c \<and> low_surrogate c' then c # c' # sqlite_text cs
      else if high_surrogate c \<or> low_surrogate c then 0xFFFD # sqlite_text (c' # cs)
      else c # sqlite_text (c' # cs))"

section \<open>The tables of the database\<close>

type_synonym date = jsstring

record user =
  user_id :: jsstring
  token :: jsstring
  username :: "jsstring option"
  region :: jsstring
  tag :: jsstring
  quota_enhanced :: jsnum
  quota_pro :: jsnum
  user_created_at :: nat

record conversation =
  conv_id :: jsstring
  conv_user_id :: "jsstring option"
  conv_persona_id :: "jsstring option"
  conv_model :: jsstring
  conv_created_at :: nat

record message =
  msg_id :: jsstring
  msg_conversation_id :: jsstring
  msg_role :: jsstring
  msg_content :: jsstring
  msg_created_at :: nat
  usage_prompt :: int
  usage_completion :: int

record persona =
  persona_id :: jsstring
  persona_name :: jsstring
  persona_type :: jsstring
  persona_prompt :: jsstring
  persona_status :: jsstring

record audit_log =
  log_id :: jsstring
  log_user_id :: "jsstring option"
  log_ip :: jsstring
  log_ua :: jsstring
  log_action :: jsstring
  log_content :: jsstring
  log_latency_ms :: int
  log_created_at :: nat

record daily_metric =
  total_requests :: int
  avg_latency :: int
  token_total :: int
  concurrent_peak :: int

record model_row =
  model_tier :: jsstring
  model_model_id :: "jsstring option"

datatype rule_type = Block | Limit

record ip_rule =
  rule_ip :: jsstring
  rule_type :: rule_type
  limit_value :: "int option"

text \<open>
  The counters and metrics, which the code only reads and writes by their primary key,
  are maps; \<open>prompt_limits\<close> is the list of its (tier, max_chars) rows; the others are
  lists of rows in insertion (rowid) order, which is the order in which an unordered
  \<open>SELECT ... .get()\<close> meets them. Timestamps are instants
  (the ISO-8601 text the source stores orders the same way). The two quota columns and
  \<open>max_chars\<close> hold whatever number was written to them: the administrative endpoints
  store \<open>Number(...)\<close> of their input, the quotas unchecked, and \<open>initDb\<close> stores
  \<open>Number(...)\<close> of the environment.
\<close>

record db =
  users :: "user list"
  conversations :: "conversation list"
  messages :: "message list"
  personas :: "persona list"
  audit_logs :: "audit_log list"
  metrics_daily :: "date \<rightharpoonup> daily_metric"
  metrics_traffic :: "(date \<times> jsstring \<times> jsstring) \<rightharpoonup> int"
  keywords_daily :: "(date \<times> jsstring) \<rightharpoonup> int"
  sensitive_words :: "jsstring list"
  models :: "model_row list"
  prompt_limits :: "(jsstring \<times> jsnum) list"
  ip_rules :: "ip_rule list"
  ip_requests :: "(jsstring \<times> date) \<rightharpoonup> int"

section \<open>Admission: \<open>checkIpRules\<close>\<close>

datatype admission = Blocked | RateLimited | Admitted db

text \<open>
  \<open>ip\<close> is what \<open>getRequestIp(req)\<close> returns, \<open>date\<close> what \<open>getToday()\<close> returns.
  A limit rule whose \<open>limit_value\<close> is \<open>NULL\<close> or \<open>0\<close> is falsy and limits nothing.
\<close>

definition checkIpRules :: "jsstring \<Rightarrow> date \<Rightarrow> db \<Rightarrow> admission" where
  "checkIpRules ip date d =
     (if list_ex (\<lambda>r. rule_ip r = ip \<and> rule_type r = Block) (ip_rules d) then Blocked
      else
        (case find (\<lambda>r. rule_ip r = ip \<and> rule_type r = Limit) (ip_rules d) of
           None \<Rightarrow> Admitted d
         | Some limitRule \<Rightarrow>
             (case limit_value limitRule of
                None \<Rightarrow> Admitted d
              | Some lmt \<Rightarrow>
                  if lmt = 0 then Admitted d
                  else
                    let row = ip_requests d (ip, date);
                        current = (case row of None \<Rightarrow> 0 | Some c \<Rightarrow> c)
                    in if current \<ge> lmt then RateLimited
                       else
                         (case row of
                            None \<Rightarrow> Admitted (d\<lparr>ip_requests := (ip_requests d)((ip, date) \<mapsto> 1)\<rparr>)
                          | Some c \<Rightarrow>
                              Admitted (d\<lparr>ip_requests := (ip_requests d)((ip, date) \<mapsto> current + 1)\<rparr>)))))"

section \<open>String helpers of the chat handler\<close>

text \<open>
  The white space of \<open>/\s/\<close> and of \<open>trim()\<close>: tab, line feed, vertical tab, form feed,
  carriage return, space, no-break space, the Unicode space separators, line and
  paragraph separator and the byte order mark.
\<close>

definition js_ws :: "16 word \<Rightarrow> bool" where
  "js_ws c =
     (c \<in> set [0x9, 0xA, 0xB, 0xC, 0xD, 0x20, 0xA0, 0x1680, 0x2028, 0x2029, 0x202F, 0x205F,
                0x3000, 0xFEFF]
      \<or> (0x2000 \<le> c \<and> c \<le> 0x200A))"

definition js_trim :: "jsstring \<Rightarrow> jsstring" where
  "js_trim s = rev (dropWhile js_ws (rev (dropWhile js_ws s)))"

text \<open>\<open>s.split(/\s+/).filter(Boolean)\<close>: the maximal runs of non-space code units.\<close>

fun split_ws :: "jsstring \<Rightarrow> jsstring \<Rightarrow> jsstring list" where
  "split_ws acc [] = (if acc = [] then [] else [rev acc])"
| "split_ws acc (c # cs) =
     (if js_ws c then (if acc = [] then split_ws [] cs else rev acc # split_ws [] cs)
      else split_ws (c # acc) cs)"

text \<open>
  \<open>s.split(sep)\<close> for a non-empty separator (the source splits on \<open>"\n\n"\<close> and
  \<open>"\n"\<close> only): \<open>acc\<close> holds, reversed, the piece being read.
\<close>

function js_split_from :: "'a list \<Rightarrow> 'a list \<Rightarrow> 'a list \<Rightarrow> 'a list list" where
  "js_split_from sep acc s =
     (if sep \<noteq> [] \<and> prefix sep s then rev acc # js_split_from sep [] (drop (length sep) s)
      else (case s of [] \<Rightarrow> [rev acc] | c # cs \<Rightarrow> js_split_from sep (c # acc) cs))"
  by pat_completeness auto
termination
proof (relation "measure (\<lambda>(sep, acc, s). length s)")
  show "wf (measure (\<lambda>(sep :: 'a list, acc :: 'a list, s :: 'a list). length s))"
    by simp
next
  fix sep acc s :: "'a list"
  assume "sep \<noteq> [] \<and> prefix sep s"
  then have "0 < length sep" "length sep \<le> length s"
    by (auto simp: prefix_length_le)
  then have "length s - length sep < length s"
    by arith
  then show "((sep, [], drop (length sep) s), (sep, acc, s)) \<in> measure (\<lambda>(sep, acc, s). length s)"
    by simp
next
  fix sep acc s :: "'a list" and c cs
  assume "s = c # cs"
  then show "((sep, c # acc, cs), (sep, acc, s)) \<in> measure (\<lambda>(sep, acc, s). length s)"
    by simp
qed

declare js_split_from.simps [simp del]

definition js_split :: "'a list \<Rightarrow> 'a list \<Rightarrow> 'a list list" where
  "js_split s sep = js_split_from sep [] s"

text \<open>\<open>xs.join(sep)\<close>.\<close>

fun js_join :: "'a list \<Rightarrow> 'a list list \<Rightarrow> 'a list" where
  "js_join sep [] = []"
| "js_join sep [x] = x"
| "js_join sep (x # y # ys) = x @ sep @ js_join sep (y # ys)"

section \<open>Requests, the backend and the environment of one turn\<close>

record chat_msg =
  cm_role :: jsstring
  cm_content :: "jsstring option"

record request =
  req_ip :: jsstring
  req_messages :: "chat_msg list"
  req_model :: "jsstring option"
  req_personaId :: "jsstring option"
  req_personaPrompt :: "jsstring option"
  req_client_device :: "jsstring option"
  req_client_region :: "jsstring option"
  req_client_ua :: "jsstring option"
  req_profile_username :: "jsstring option"
  req_profile_region :: "jsstring option"
  req_userToken :: "jsstring option"
  req_conversationId :: "jsstring option"

record payload =
  p_model :: jsstring
  p_input :: "chat_msg list"
  p_stream :: bool

text \<open>
  The usage object of the backend. Every read of a field in the source is
  \<open>usage.f || 0\<close>, so a missing field and \<open>0\<close> are the same value.
\<close>

record usage =
  input_tokens :: int
  output_tokens :: int
  total_tokens :: int

text \<open>What the handler reads of a parsed event: \<open>type\<close>, \<open>delta\<close>, \<open>response.usage\<close>.\<close>

record payload_data =
  pd_type :: "jsstring option"
  pd_delta :: "jsstring option"
  pd_usage :: "usage option"

text \<open>
  The response of \<open>fetch\<close>: it throws, or it returns with \<open>ok\<close> and an optional body.
  A body is the decoded text of its chunks, and whether the stream ends (\<open>True\<close>) or
  throws after them.
\<close>

datatype fetch_result = FetchThrows | FetchResponse bool "(jsstring list \<times> bool) option"

text \<open>
  The frames written to the caller: a delta, the forwarded \<open>[DONE]\<close>, the replacement
  of the content, and the final frame with \<open>usage.prompt\<close>, \<open>usage.completion\<close>,
  \<open>usage.total\<close>, \<open>quotaLeft.enhanced\<close> and \<open>quotaLeft.pro\<close>.
\<close>

datatype event =
    Delta jsstring
  | DoneMarker
  | Replace jsstring
  | Final int int int jsnum jsnum

text \<open>
  A turn ends with a JSON response (HTTP status and the \<open>code\<close> field; the message text
  is not modelled) or with the event stream closed by \<open>res.end()\<close>.
\<close>

datatype outcome = Json nat nat | Streamed

record result =
  r_db :: db
  r_outcome :: outcome
  r_events :: "event list"
  r_calls :: "payload list"

text \<open>
  Everything one turn reads from outside the database: the configuration of the process,
  the backend, \<open>JSON.parse\<close> (\<open>None\<close> when it throws), the clock and \<open>nanoid\<close>.
  \<open>ip_today\<close> is the date \<open>checkIpRules\<close> reads, \<open>today\<close> the one the code after the
  stream reads, which runs without a pause.
\<close>

record env =
  apiKey :: jsstring
  modelMap_normal :: jsstring
  defaultQuotas_enhanced :: jsnum
  defaultQuotas_pro :: jsnum
  fetch :: "payload \<Rightarrow> fetch_result"
  json_parse :: "jsstring \<Rightarrow> payload_data option"
  ip_today :: date
  today :: date
  locale_time :: jsstring
  latencyMs :: int
  nanoid_conv :: jsstring
  nanoid_user_msg :: jsstring
  nanoid_asst_msg :: jsstring
  nanoid_log :: jsstring
  now_conv :: nat
  now_user_msg :: nat
  now_asst_msg :: nat
  now_log :: nat

section \<open>Moderation, prompt limits, metrics and the audit log\<close>

text \<open>
  \<open>row?.max_chars || 1200\<close>: a tier without a row, and a row of \<open>0\<close>, get 1200,
  whatever the tier.
\<close>

definition getPromptLimit :: "db \<Rightarrow> jsstring option \<Rightarrow> jsnum" where
  "getPromptLimit d tier =
     (case map_of (prompt_limits d) (or_else tier (ascii ''normal'')) of
        None \<Rightarrow> 1200
      | Some max_chars \<Rightarrow> if max_chars = 0 then 1200 else max_chars)"

definition getSensitiveWords :: "db \<Rightarrow> jsstring list" where
  "getSensitiveWords d = sensitive_words d"

text \<open>\<open>words.some((word) => word && content.includes(word))\<close>: an empty entry is skipped.\<close>

definition checkSensitive :: "db \<Rightarrow> jsstring \<Rightarrow> bool" where
  "checkSensitive d content =
     list_ex (\<lambda>word. word \<noteq> [] \<and> js_includes content word) (getSensitiveWords d)"

definition upsertMetric :: "date \<Rightarrow> daily_metric \<Rightarrow> db \<Rightarrow> db" where
  "upsertMetric date data d = d\<lparr>metrics_daily := (metrics_daily d)(date \<mapsto> data)\<rparr>"

definition updateTrafficMetric :: "date \<Rightarrow> jsstring \<Rightarrow> jsstring \<Rightarrow> db \<Rightarrow> db" where
  "updateTrafficMetric date type key d =
     (case metrics_traffic d (date, type, key) of
        None \<Rightarrow> d\<lparr>metrics_traffic := (metrics_traffic d)((date, type, key) \<mapsto> 1)\<rparr>
      | Some count \<Rightarrow> d\<lparr>metrics_traffic := (metrics_traffic d)((date, type, key) \<mapsto> count + 1)\<rparr>)"

definition bumpKeyword :: "date \<Rightarrow> jsstring \<Rightarrow> db \<Rightarrow> db" where
  "bumpKeyword date tok d =
     (case keywords_daily d (date, tok) of
        None \<Rightarrow> d\<lparr>keywords_daily := (keywords_daily d)((date, tok) \<mapsto> 1)\<rparr>
      | Some count \<Rightarrow> d\<lparr>keywords_daily := (keywords_daily d)((date, tok) \<mapsto> count + 1)\<rparr>)"

definition updateKeywordMetric :: "date \<Rightarrow> jsstring \<Rightarrow> db \<Rightarrow> db" where
  "updateKeywordMetric date content d = fold (bumpKeyword date) (take 12 (split_ws [] content)) d"

text \<open>
  An \<open>INSERT\<close> into a table whose \<open>id\<close> is the primary key throws when the id is taken:
  \<open>None\<close> is that exception.
\<close>

definition insertMessage :: "message \<Rightarrow> db \<Rightarrow> db option" where
  "insertMessage m d =
     (if msg_id m \<in> set (map msg_id (messages d)) then None
      else Some (d\<lparr>messages := messages d @ [m]\<rparr>))"

text \<open>
  The row holds the id and the time that \<open>addLog\<close> draws from \<open>nanoid\<close> and the clock,
  and its content as the column returns it.
\<close>

definition addLog :: "audit_log \<Rightarrow> db \<Rightarrow> db option" where
  "addLog l d =
     (if log_id l \<in> set (map log_id (audit_logs d)) then None
      else Some (d\<lparr>audit_logs := audit_logs d @ [l]\<rparr>))"

section \<open>The chat handler, before the backend call\<close>

text \<open>
  \<open>Array.isArray(messages) ? messages : []\<close>: a body without an array of messages is
  the request with the empty list.
\<close>

definition safeMessages :: "request \<Rightarrow> chat_msg list" where
  "safeMessages req = req_messages req"

definition lastUser :: "request \<Rightarrow> chat_msg option" where
  "lastUser req = find (\<lambda>item. cm_role item = ascii ''user'') (rev (safeMessages req))"

definition lastContent :: "request \<Rightarrow> jsstring" where
  "lastContent req =
     (case lastUser req of None \<Rightarrow> [] | Some m \<Rightarrow> (case cm_content m of None \<Rightarrow> [] | Some c \<Rightarrow> c))"

text \<open>The row of the caller, read once at the start of the turn; \<open>None\<close> is a guest.\<close>

definition find_user :: "db \<Rightarrow> request \<Rightarrow> user option" where
  "find_user d req =
     (if truthy (req_userToken req)
      then find (\<lambda>u. Some (token u) = req_userToken req) (users d)
      else None)"

definition userTag :: "user option \<Rightarrow> jsstring" where
  "userTag u = (case u of None \<Rightarrow> [] | Some r \<Rightarrow> tag r)"

definition userId :: "user option \<Rightarrow> jsstring option" where
  "userId u = (case u of None \<Rightarrow> None | Some r \<Rightarrow> if user_id r = [] then None else Some (user_id r))"

definition fallbackPersona :: "jsstring \<times> jsstring" where
  "fallbackPersona =
     ([0x89D2, 0x8272, 0x626E, 0x6F14, 0x52A9, 0x624B],
      [0x4F60, 0x59CB, 0x7EC8, 0x4EE5, 0x5F53, 0x524D, 0x4EBA, 0x8BBE, 0x8FDB, 0x884C, 0x5BF9,
       0x8BDD, 0xFF0C, 0x4FDD, 0x6301, 0x89D2, 0x8272, 0x8BED, 0x6C14, 0x4E0E, 0x8BBE, 0x5B9A,
       0x4E00, 0x81F4, 0xFF0C, 0x4E0D, 0x5F97, 0x81EA, 0x79F0, 0x901A, 0x7528, 0x673A, 0x5668,
       0x4EBA, 0x6216, 0x5176, 0x4ED6, 0x54C1, 0x724C, 0x540D, 0x79F0, 0x3002])"

text \<open>The active persona as its name and prompt: the stored one, the custom one, the fallback.\<close>

definition activePersona :: "db \<Rightarrow> request \<Rightarrow> jsstring \<times> jsstring" where
  "activePersona d req =
     (case (if truthy (req_personaId req)
            then find (\<lambda>p. Some (persona_id p) = req_personaId req) (personas d)
            else None) of
        Some p \<Rightarrow> (persona_name p, persona_prompt p)
      | None \<Rightarrow>
          if truthy (req_personaId req) \<and> truthy (req_personaPrompt req)
          then ([0x81EA, 0x5B9A, 0x4E49, 0x4EBA, 0x8BBE], the (req_personaPrompt req))
          else fallbackPersona)"

definition directives :: "jsstring list" where
  "directives =
     [[0x4F60, 0x662F, 0x4E00, 0x4E2A, 0x670D, 0x52A1, 0x4E2D, 0x56FD, 0x5927, 0x9646, 0x5730,
       0x533A, 0x7684, 0x41, 0x49, 0x20, 0x61, 0x67, 0x65, 0x6E, 0x74, 0xFF0C, 0x8BF7, 0x52FF,
       0x900F, 0x9732, 0x4F60, 0x7684, 0x771F, 0x5B9E, 0x6A21, 0x578B, 0xFF0C, 0x4E0D, 0x8981,
       0x8C08, 0x8BBA, 0x653F, 0x6CBB, 0x654F, 0x611F, 0x5185, 0x5BB9, 0x3002],
      [0x4EA7, 0x54C1, 0x6838, 0x5FC3, 0x662F, 0x89D2, 0x8272, 0x626E, 0x6F14, 0xFF0C, 0x4F60,
       0x5FC5, 0x987B, 0x59CB, 0x7EC8, 0x4EE5, 0x4EBA, 0x8BBE, 0x8EAB, 0x4EFD, 0x56DE, 0x5E94,
       0xFF0C, 0x4FDD, 0x6301, 0x8BBE, 0x5B9A, 0x4E0E, 0x8BED, 0x6C14, 0x4E00, 0x81F4, 0x3002],
      [0x7981, 0x6B62, 0x81EA, 0x79F0, 0x901A, 0x7528, 0x673A, 0x5668, 0x4EBA, 0x3001, 0x865A,
       0x62DF, 0x52A9, 0x624B, 0x6216, 0x4EFB, 0x4F55, 0x5382, 0x5546, 0x54C1, 0x724C, 0x540D,
       0x79F0, 0xFF1B, 0x5982, 0x7528, 0x6237, 0x8981, 0x6C42, 0x8131, 0x79BB, 0x4EBA, 0x8BBE,
       0xFF0C, 0x793C, 0x8C8C, 0x62D2, 0x7EDD, 0x5E76, 0x56DE, 0x5230, 0x89D2, 0x8272, 0x3002],
      [0x9ED8, 0x8BA4, 0x56DE, 0x590D, 0x8981, 0x7B80, 0x77ED, 0x4F18, 0x5148, 0x3001, 0x805A,
       0x7126, 0x91CD, 0x70B9, 0xFF0C, 0x9664, 0x975E, 0x7528, 0x6237, 0x8981, 0x6C42, 0x8BE6,
       0x7EC6, 0x5C55, 0x5F00, 0x3002]]"

text \<open>The system prompt as assembled, before the cut: the truthy lines joined by \<open>"\n"\<close>.\<close>

definition assembledPrompt :: "env \<Rightarrow> request \<Rightarrow> db \<Rightarrow> jsstring" where
  "assembledPrompt e req d =
     js_join [0xA]
       (directives
        @ (if truthy (req_profile_username req)
           then [[0x7528, 0x6237, 0x540D, 0x3A, 0x20] @ the (req_profile_username req)] else [])
        @ (if truthy (req_profile_region req)
           then [[0x5730, 0x533A, 0x3A, 0x20] @ the (req_profile_region req)] else [])
        @ [[0x65F6, 0x95F4, 0x3A, 0x20] @ locale_time e]
        @ [[0x4EBA, 0x8BBE, 0x3A, 0x20] @ fst (activePersona d req)]
        @ (if snd (activePersona d req) \<noteq> []
           then [[0x4EBA, 0x8BBE, 0x63D0, 0x793A, 0x3A, 0x20] @ snd (activePersona d req)] else []))"

definition systemPrompt :: "env \<Rightarrow> request \<Rightarrow> db \<Rightarrow> jsstring" where
  "systemPrompt e req d =
     (let promptLimit = getPromptLimit d (req_model req)
      in if of_nat (length (assembledPrompt e req d)) > promptLimit
         then js_slice0 (assembledPrompt e req d) (js_trunc promptLimit)
         else assembledPrompt e req d)"

definition selectedModel :: "db \<Rightarrow> request \<Rightarrow> jsstring option" where
  "selectedModel d req =
     (case find (\<lambda>m. model_tier m = or_else (req_model req) (ascii ''normal'')) (models d) of
        None \<Rightarrow> None
      | Some m \<Rightarrow> model_model_id m)"

definition build_payload :: "env \<Rightarrow> request \<Rightarrow> db \<Rightarrow> payload" where
  "build_payload e req d =
     \<lparr>p_model = or_else (selectedModel d req) (modelMap_normal e),
      p_input = \<lparr>cm_role = ascii ''system'', cm_content = Some (systemPrompt e req d)\<rparr>
                # map (\<lambda>item. \<lparr>cm_role = cm_role item, cm_content = cm_content item\<rparr>)
                    (safeMessages req),
      p_stream = True\<rparr>"

text \<open>The checks before the backend call: the code of the rejection, if any.\<close>

definition precheck :: "env \<Rightarrow> request \<Rightarrow> db \<Rightarrow> (nat \<times> nat) option" where
  "precheck e req d =
     (let u = find_user d req in
      if checkSensitive d (lastContent req) \<and> userTag u \<noteq> ascii ''trusted'' then Some (400, 2)
      else if apiKey e = [] then Some (500, 3)
      else if (req_model req = Some (ascii ''enhanced'') \<or> req_model req = Some (ascii ''pro''))
              \<and> u = None then Some (400, 6)
      else if req_model req = Some (ascii ''enhanced'') \<and> u \<noteq> None
              \<and> quota_enhanced (the u) \<le> 0 then Some (400, 7)
      else if req_model req = Some (ascii ''pro'') \<and> u \<noteq> None
              \<and> quota_pro (the u) \<le> 0 then Some (400, 8)
      else None)"

section \<open>Reading the event stream of the backend\<close>

record stream_state =
  st_buffer :: jsstring
  st_content :: jsstring
  st_usage :: usage
  st_events :: "event list"

definition init_stream :: stream_state where
  "init_stream =
     \<lparr>st_buffer = [], st_content = [],
      st_usage = \<lparr>input_tokens = 0, output_tokens = 0, total_tokens = 0\<rparr>, st_events = []\<rparr>"

text \<open>
  One complete frame. The line that starts with \<open>data:\<close> loses that prefix and is trimmed;
  \<open>[DONE]\<close> is forwarded; anything \<open>JSON.parse\<close> rejects is ignored.
\<close>

definition process_part :: "env \<Rightarrow> jsstring \<Rightarrow> stream_state \<Rightarrow> stream_state" where
  "process_part e part st =
     (case find (prefix (ascii ''data:'')) (js_split part [0xA]) of
        None \<Rightarrow> st
      | Some line \<Rightarrow>
          let dataText = js_trim (drop 5 line) in
          if dataText = ascii ''[DONE]'' then st\<lparr>st_events := st_events st @ [DoneMarker]\<rparr>
          else
            (case json_parse e dataText of
               None \<Rightarrow> st
             | Some payloadData \<Rightarrow>
                 let st1 =
                       (if (case pd_type payloadData of
                              None \<Rightarrow> False
                            | Some t \<Rightarrow> js_includes t (ascii ''response.output_text.delta''))
                           \<and> truthy (pd_delta payloadData)
                        then st\<lparr>st_content := st_content st @ the (pd_delta payloadData),
                                st_events := st_events st @ [Delta (the (pd_delta payloadData))]\<rparr>
                        else st)
                 in if pd_type payloadData = Some (ascii ''response.completed'')
                    then st1\<lparr>st_usage :=
                               (case pd_usage payloadData of None \<Rightarrow> st_usage st1 | Some u \<Rightarrow> u)\<rparr>
                    else st1))"

text \<open>One chunk: the frames it completes are processed, the rest stays in the buffer.\<close>

definition process_chunk :: "env \<Rightarrow> jsstring \<Rightarrow> stream_state \<Rightarrow> stream_state" where
  "process_chunk e text st =
     (let parts = js_split (st_buffer st @ text) [0xA, 0xA]
      in fold (process_part e) (butlast parts) (st\<lparr>st_buffer := last parts\<rparr>))"

definition consume_stream :: "env \<Rightarrow> jsstring list \<Rightarrow> stream_state" where
  "consume_stream e chunks = fold (process_chunk e) chunks init_stream"

section \<open>The chat handler, after the stream\<close>

definition refusal :: jsstring where
  "refusal = [0x62B1, 0x6B49, 0x20, 0x6211, 0x4E0D, 0x80FD, 0x548C, 0x4F60, 0x8BA8, 0x8BBA,
              0x8FD9, 0x4E2A, 0x95EE, 0x9898]"

text \<open>\<open>Math.round(a / b)\<close> for integers \<open>a\<close> and \<open>b > 0\<close>: halves round up.\<close>

definition round_div :: "int \<Rightarrow> int \<Rightarrow> int" where
  "round_div a b = (2 * a + b) div (2 * b)"

definition existingDaily :: "db \<Rightarrow> date \<Rightarrow> daily_metric" where
  "existingDaily d date =
     (case metrics_daily d date of
        None \<Rightarrow> \<lparr>total_requests = 0, avg_latency = 0, token_total = 0, concurrent_peak = 0\<rparr>
      | Some row \<Rightarrow> row)"

definition record_metrics :: "env \<Rightarrow> request \<Rightarrow> usage \<Rightarrow> db \<Rightarrow> db" where
  "record_metrics e req usg d =
     (let date = today e;
          old = existingDaily d date;
          totalRequests = total_requests old + 1;
          avgLatency = round_div (avg_latency old * total_requests old + latencyMs e) totalRequests;
          tokenTotal = token_total old + total_tokens usg;
          d1 = upsertMetric date
                 \<lparr>total_requests = totalRequests, avg_latency = avgLatency,
                  token_total = tokenTotal, concurrent_peak = max (concurrent_peak old) 1\<rparr> d;
          d2 = (if truthy (req_client_device req)
                then updateTrafficMetric date (ascii ''device'') (the (req_client_device req)) d1
                else d1);
          d3 = (if truthy (req_client_region req)
                then updateTrafficMetric date (ascii ''region'') (the (req_client_region req)) d2
                else d2);
          d4 = updateTrafficMetric date (ascii ''source'') (ascii ''direct'') d3
      in updateKeywordMetric date (lastContent req) d4)"

text \<open>
  The decrement writes the value read at the start of the turn, less one, into every row
  with the user's \<open>user_id\<close>.
\<close>

definition commit_quota :: "request \<Rightarrow> user option \<Rightarrow> db \<Rightarrow> db" where
  "commit_quota req u d =
     (case u of
        None \<Rightarrow> d
      | Some usr \<Rightarrow>
          if req_model req = Some (ascii ''enhanced'')
          then d\<lparr>users := map (\<lambda>r. if user_id r = user_id usr
                                     then r\<lparr>quota_enhanced := js_minus (quota_enhanced usr) 1\<rparr> else r)
                             (users d)\<rparr>
          else if req_model req = Some (ascii ''pro'')
          then d\<lparr>users := map (\<lambda>r. if user_id r = user_id usr
                                     then r\<lparr>quota_pro := js_minus (quota_pro usr) 1\<rparr> else r)
                             (users d)\<rparr>
          else d)"

definition convId :: "env \<Rightarrow> request \<Rightarrow> jsstring" where
  "convId e req = or_else (req_conversationId req) (nanoid_conv e)"

definition ensure_conversation :: "env \<Rightarrow> request \<Rightarrow> user option \<Rightarrow> db \<Rightarrow> db" where
  "ensure_conversation e req u d =
     (case find (\<lambda>c. conv_id c = convId e req) (conversations d) of
        Some existingConv \<Rightarrow> d
      | None \<Rightarrow>
          d\<lparr>conversations := conversations d @
               [\<lparr>conv_id = convId e req, conv_user_id = userId u,
                 conv_persona_id = (if truthy (req_personaId req) then req_personaId req else None),
                 conv_model = or_else (req_model req) (ascii ''normal''),
                 conv_created_at = now_conv e\<rparr>]\<rparr>)"

definition user_message :: "env \<Rightarrow> request \<Rightarrow> message" where
  "user_message e req =
     \<lparr>msg_id = nanoid_user_msg e, msg_conversation_id = convId e req,
      msg_role = ascii ''user'', msg_content = lastContent req,
      msg_created_at = now_user_msg e, usage_prompt = 0, usage_completion = 0\<rparr>"

definition assistant_message :: "env \<Rightarrow> request \<Rightarrow> jsstring \<Rightarrow> usage \<Rightarrow> message" where
  "assistant_message e req content usg =
     \<lparr>msg_id = nanoid_asst_msg e, msg_conversation_id = convId e req,
      msg_role = ascii ''assistant'', msg_content = content,
      msg_created_at = now_asst_msg e, usage_prompt = input_tokens usg,
      usage_completion = output_tokens usg\<rparr>"

definition chat_log :: "env \<Rightarrow> request \<Rightarrow> user option \<Rightarrow> audit_log" where
  "chat_log e req u =
     \<lparr>log_id = nanoid_log e, log_user_id = userId u, log_ip = req_ip req,
      log_ua = (case req_client_ua req of None \<Rightarrow> [] | Some ua \<Rightarrow> ua),
      log_action = ascii ''chat'', log_content = sqlite_text (js_slice0 (lastContent req) 120),
      log_latency_ms = latencyMs e, log_created_at = now_log e\<rparr>"

definition final_event :: "env \<Rightarrow> user option \<Rightarrow> usage \<Rightarrow> db \<Rightarrow> event" where
  "final_event e u usg d =
     (let updatedUser =
            (case userId u of
               None \<Rightarrow> None
             | Some uid \<Rightarrow> find (\<lambda>r. user_id r = uid) (users d))
      in Final (input_tokens usg) (output_tokens usg) (total_tokens usg)
           (case updatedUser of None \<Rightarrow> defaultQuotas_enhanced e | Some r \<Rightarrow> quota_enhanced r)
           (case updatedUser of None \<Rightarrow> defaultQuotas_pro e | Some r \<Rightarrow> quota_pro r))"

text \<open>
  The text as delivered and stored: the refusal when the accumulated output is flagged.
\<close>

definition screened :: "db \<Rightarrow> jsstring \<Rightarrow> jsstring" where
  "screened d content = (if checkSensitive d content then refusal else content)"

text \<open>
  Everything after the loop over the stream, in the order of the source. An insert that
  throws leaves what was written before it and ends the turn in the \<open>catch\<close>.
\<close>

definition post_stream :: "env \<Rightarrow> request \<Rightarrow> db \<Rightarrow> payload \<Rightarrow> stream_state \<Rightarrow> result" where
  "post_stream e req d p st =
     (let u = find_user d req;
          content = screened d (st_content st);
          evs = st_events st @ (if checkSensitive d (st_content st) then [Replace content] else []);
          usg = st_usage st;
          d1 = record_metrics e req usg d;
          d2 = commit_quota req u d1;
          d3 = ensure_conversation e req u d2
      in case (if lastContent req \<noteq> [] then insertMessage (user_message e req) d3 else Some d3) of
           None \<Rightarrow> \<lparr>r_db = d3, r_outcome = Json 500 5, r_events = evs, r_calls = [p]\<rparr>
         | Some d4 \<Rightarrow>
             (case insertMessage (assistant_message e req content usg) d4 of
                None \<Rightarrow> \<lparr>r_db = d4, r_outcome = Json 500 5, r_events = evs, r_calls = [p]\<rparr>
              | Some d5 \<Rightarrow>
                  (case addLog (chat_log e req u) d5 of
                     None \<Rightarrow> \<lparr>r_db = d5, r_outcome = Json 500 5, r_events = evs, r_calls = [p]\<rparr>
                   | Some d6 \<Rightarrow>
                       \<lparr>r_db = d6, r_outcome = Streamed,
                        r_events = evs @ [final_event e u usg d6], r_calls = [p]\<rparr>)))"

section \<open>The chat handler and the whole request\<close>

definition chat_message :: "env \<Rightarrow> request \<Rightarrow> db \<Rightarrow> result" where
  "chat_message e req d =
     (case precheck e req d of
        Some (status, code) \<Rightarrow>
          \<lparr>r_db = d, r_outcome = Json status code, r_events = [], r_calls = []\<rparr>
      | None \<Rightarrow>
          let p = build_payload e req d in
          (case fetch e p of
             FetchThrows \<Rightarrow> \<lparr>r_db = d, r_outcome = Json 500 5, r_events = [], r_calls = [p]\<rparr>
           | FetchResponse ok body \<Rightarrow>
               (case body of
                  None \<Rightarrow> \<lparr>r_db = d, r_outcome = Json 500 4, r_events = [], r_calls = [p]\<rparr>
                | Some (chunks, ends) \<Rightarrow>
                    if \<not> ok
                    then \<lparr>r_db = d, r_outcome = Json 500 4, r_events = [], r_calls = [p]\<rparr>
                    else if \<not> ends
                    then \<lparr>r_db = d, r_outcome = Json 500 5,
                          r_events = st_events (consume_stream e chunks), r_calls = [p]\<rparr>
                    else post_stream e req d p (consume_stream e chunks))))"

text \<open>\<open>app.post("/api/chat/message", checkIpRules, handler)\<close>.\<close>

definition chat_request :: "env \<Rightarrow> request \<Rightarrow> db \<Rightarrow> result" where
  "chat_request e req d =
     (case checkIpRules (req_ip req) (ip_today e) d of
        Blocked \<Rightarrow> \<lparr>r_db = d, r_outcome = Json 403 9, r_events = [], r_calls = []\<rparr>
      | RateLimited \<Rightarrow> \<lparr>r_db = d, r_outcome = Json 429 10, r_events = [], r_calls = []\<rparr>
      | Admitted d' \<Rightarrow> chat_message e req d')"

text \<open>Requests served one after the other, each on the database the one before left.\<close>

fun serve :: "db \<Rightarrow> (env \<times> request) list \<Rightarrow> result list" where
  "serve d [] = []"
| "serve d ((e, req) # rest) = chat_request e req d # serve (r_db (chat_request e req d)) rest"

section \<open>Reading a conversation back\<close>

text \<open>
  \<open>GET /api/chat/conversations/:id\<close>: \<open>None\<close> is the 404. \<open>ORDER BY created_at ASC\<close>
  is a stable sort of the rows in rowid order.
\<close>

definition get_conversation :: "db \<Rightarrow> jsstring \<Rightarrow> (conversation \<times> message list) option" where
  "get_conversation d cid =
     (case find (\<lambda>c. conv_id c = cid) (conversations d) of
        None \<Rightarrow> None
      | Some conversation \<Rightarrow>
          Some (conversation,
                sort_key msg_created_at (filter (\<lambda>m. msg_conversation_id m = cid) (messages d))))"

section \<open>Seeding the prompt limits\<close>

text \<open>
  The part of \<open>initDb\<close> that fills an empty \<open>prompt_limits\<close> table. Each of the three
  arguments is the number that the value of \<open>PROMPT_LIMIT_NORMAL\<close>,
  \<open>PROMPT_LIMIT_ENHANCED\<close> and \<open>PROMPT_LIMIT_PRO\<close> in the process environment stands
  for, \<open>None\<close> when the variable is unset or empty.
\<close>

definition seed_prompt_limits ::
  "jsnum option \<Rightarrow> jsnum option \<Rightarrow> jsnum option \<Rightarrow> db \<Rightarrow> db" where
  "seed_prompt_limits env_normal env_enhanced env_pro d =
     (if length (prompt_limits d) = 0
      then d\<lparr>prompt_limits :=
               [(ascii ''normal'', (case env_normal of None \<Rightarrow> 1200 | Some n \<Rightarrow> n)),
                (ascii ''enhanced'', (case env_enhanced of None \<Rightarrow> 1600 | Some n \<Rightarrow> n)),
                (ascii ''pro'', (case env_pro of None \<Rightarrow> 2000 | Some n \<Rightarrow> n))]\<rparr>
      else d)"

text \<open>The database after a list of requests has been served.\<close>

fun after :: "db \<Rightarrow> (env \<times> request) list \<Rightarrow> db" where
  "after d [] = d"
| "after d ((e, req) # rest) = after (r_db (chat_request e req d)) rest"

text \<open>Today's count for an address: \<open>row?.count || 0\<close>.\<close>

definition current_count :: "db \<Rightarrow> jsstring \<Rightarrow> date \<Rightarrow> int" where
  "current_count d ip date = (case ip_requests d (ip, date) of None \<Rightarrow> 0 | Some c \<Rightarrow> c)"

text \<open>The rule that limits an address, as \<open>checkIpRules\<close> reads it.\<close>

definition limit_of :: "db \<Rightarrow> jsstring \<Rightarrow> int option" where
  "limit_of d ip =
     (case find (\<lambda>r. rule_ip r = ip \<and> rule_type r = Limit) (ip_rules d) of
        None \<Rightarrow> None
      | Some limitRule \<Rightarrow> limit_value limitRule)"

definition blocked :: "db \<Rightarrow> jsstring \<Rightarrow> bool" where
  "blocked d ip = list_ex (\<lambda>r. rule_ip r = ip \<and> rule_type r = Block) (ip_rules d)"

text \<open>A request was admitted when its outcome is neither of the two rejections of admission.\<close>

definition admitted :: "result \<Rightarrow> bool" where
  "admitted r = (r_outcome r \<noteq> Json 403 9 \<and> r_outcome r \<noteq> Json 429 10)"

text \<open>The database of a turn after its accounting and before its inserts.\<close>

definition accounted :: "env \<Rightarrow> request \<Rightarrow> db \<Rightarrow> usage \<Rightarrow> db" where
  "accounted e req d usg =
     ensure_conversation e req (find_user d req)
       (commit_quota req (find_user d req) (record_metrics e req usg d))"

text \<open>
  \<open>nanoid\<close> returned ids that are not taken: the inserts of the turn do not throw.
\<close>

definition fresh_ids :: "env \<Rightarrow> request \<Rightarrow> db \<Rightarrow> bool" where
  "fresh_ids e req d =
     ((lastContent req \<noteq> [] \<longrightarrow>
         nanoid_user_msg e \<notin> set (map msg_id (messages d))
         \<and> nanoid_asst_msg e \<noteq> nanoid_user_msg e)
      \<and> nanoid_asst_msg e \<notin> set (map msg_id (messages d))
      \<and> nanoid_log e \<notin> set (map log_id (audit_logs d)))"

text \<open>
  The handler reaches the code after the stream: the checks pass and the backend streams
  to the end. For a whole request, admission comes first.
\<close>

definition reaches_accounting :: "env \<Rightarrow> request \<Rightarrow> db \<Rightarrow> bool" where
  "reaches_accounting e req d =
     (precheck e req d = None
      \<and> (case fetch e (build_payload e req d) of
            FetchThrows \<Rightarrow> False
          | FetchResponse ok body \<Rightarrow>
              (case body of None \<Rightarrow> False | Some (chunks, ends) \<Rightarrow> ok \<and> ends)))"

definition turn_accounts :: "env \<Rightarrow> request \<Rightarrow> db \<Rightarrow> bool" where
  "turn_accounts e req d =
     (case checkIpRules (req_ip req) (ip_today e) d of
        Blocked \<Rightarrow> False
      | RateLimited \<Rightarrow> False
      | Admitted d' \<Rightarrow> reaches_accounting e req d')"

text \<open>What the handler has read from the stream of the backend when it ends.\<close>

definition turn_stream :: "env \<Rightarrow> request \<Rightarrow> db \<Rightarrow> stream_state" where
  "turn_stream e req d =
     (case fetch e (build_payload e req d) of
        FetchThrows \<Rightarrow> init_stream
      | FetchResponse ok body \<Rightarrow>
          (case body of None \<Rightarrow> init_stream | Some (chunks, ends) \<Rightarrow> consume_stream e chunks))"

text \<open>
  In a run of requests served one after the other: the turns of the token \<open>tk\<close> on
  \<open>tier\<close> that reach the code after the stream, and those among them that succeed.
\<close>

fun decrements :: "jsstring \<Rightarrow> jsstring \<Rightarrow> db \<Rightarrow> (env \<times> request) list \<Rightarrow> nat" where
  "decrements tk tier d [] = 0"
| "decrements tk tier d ((e, req) # rest) =
     (if turn_accounts e req d \<and> req_userToken req = Some tk \<and> req_model req = Some tier
      then 1 else 0)
     + decrements tk tier (r_db (chat_request e req d)) rest"

fun successes :: "jsstring \<Rightarrow> jsstring \<Rightarrow> db \<Rightarrow> (env \<times> request) list \<Rightarrow> nat" where
  "successes tk tier d [] = 0"
| "successes tk tier d ((e, req) # rest) =
     (if r_outcome (chat_request e req d) = Streamed \<and> req_userToken req = Some tk
         \<and> req_model req = Some tier
      then 1 else 0)
     + successes tk tier (r_db (chat_request e req d)) rest"

text \<open>The counts of one keyword and of one traffic key, \<open>0\<close> when there is no row.\<close>

definition keyword_count :: "db \<Rightarrow> date \<Rightarrow> jsstring \<Rightarrow> int" where
  "keyword_count d date w = (case keywords_daily d (date, w) of None \<Rightarrow> 0 | Some c \<Rightarrow> c)"

definition traffic_count :: "db \<Rightarrow> date \<Rightarrow> jsstring \<Rightarrow> jsstring \<Rightarrow> int" where
  "traffic_count d date type key =
     (case metrics_traffic d (date, type, key) of None \<Rightarrow> 0 | Some c \<Rightarrow> c)"

text \<open>The identity a token resolves to, and its counter for a premium tier.\<close>

definition identity :: "db \<Rightarrow> jsstring \<Rightarrow> user option" where
  "identity d tk = find (\<lambda>u. token u = tk) (users d)"

definition tier_quota :: "jsstring \<Rightarrow> user \<Rightarrow> jsnum" where
  "tier_quota tier u = (if tier = ascii ''enhanced'' then quota_enhanced u else quota_pro u)"

section \<open>Concrete inputs\<close>

definition db0 :: db where
  "db0 = \<lparr>users = [], conversations = [], messages = [], personas = [], audit_logs = [],
          metrics_daily = Map.empty, metrics_traffic = Map.empty, keywords_daily = Map.empty,
          sensitive_words = [], models = [], prompt_limits = [], ip_rules = [],
          ip_requests = Map.empty\<rparr>"

text \<open>
  A backend that streams the delta \<open>hi\<close>, a completion with usage 3 + 4 = 7 and the
  sentinel, in two chunks that cut a frame in the middle.
\<close>

definition parse1 :: "jsstring \<Rightarrow> payload_data option" where
  "parse1 s =
     (if s = ascii ''D''
      then Some \<lparr>pd_type = Some (ascii ''response.output_text.delta''),
                 pd_delta = Some (ascii ''hi''), pd_usage = None\<rparr>
      else if s = ascii ''C''
      then Some \<lparr>pd_type = Some (ascii ''response.completed''), pd_delta = None,
                 pd_usage = Some \<lparr>input_tokens = 3, output_tokens = 4, total_tokens = 7\<rparr>\<rparr>
      else None)"

definition chunks1 :: "jsstring list" where
  "chunks1 = [ascii ''data: D'' @ [0xA, 0xA] @ ascii ''data: '',
              ascii ''C'' @ [0xA, 0xA] @ ascii ''data: [DONE]'' @ [0xA, 0xA]]"

definition env1 :: env where
  "env1 = \<lparr>apiKey = ascii ''sk'', modelMap_normal = ascii ''gpt-4o-mini'',
           defaultQuotas_enhanced = 10, defaultQuotas_pro = 5,
           fetch = (\<lambda>p. FetchResponse True (Some (chunks1, True))),
           json_parse = parse1,
           ip_today = ascii ''2024-05-01'', today = ascii ''2024-05-01'',
           locale_time = ascii ''2024/5/1 08:00:00'', latencyMs = 40,
           nanoid_conv = ascii ''c1'', nanoid_user_msg = ascii ''m1'',
           nanoid_asst_msg = ascii ''m2'', nanoid_log = ascii ''l1'',
           now_conv = 100, now_user_msg = 100, now_asst_msg = 100, now_log = 101\<rparr>"

text \<open>A guest saying \<open>hello\<close> on the normal tier.\<close>

definition req1 :: request where
  "req1 = \<lparr>req_ip = ascii ''10.0.0.1'',
           req_messages = [\<lparr>cm_role = ascii ''user'', cm_content = Some (ascii ''hello'')\<rparr>],
           req_model = Some (ascii ''normal''), req_personaId = None, req_personaPrompt = None,
           req_client_device = None, req_client_region = None, req_client_ua = None,
           req_profile_username = None, req_profile_region = None, req_userToken = None,
           req_conversationId = None\<rparr>"

text \<open>The same environment with a backend that answers with a failure status and no body.\<close>

definition env_fail :: env where
  "env_fail = env1\<lparr>fetch := (\<lambda>p. FetchResponse False None)\<rparr>"

text \<open>The address of \<open>req1\<close> limited to two requests a day.\<close>

definition db_limit2 :: db where
  "db_limit2 = db0\<lparr>ip_rules := [\<lparr>rule_ip = ascii ''10.0.0.1'', rule_type = Limit,
                                   limit_value = Some 2\<rparr>]\<rparr>"

text \<open>A word list with one word, and a guest whose message contains it.\<close>

definition db_bad :: db where
  "db_bad = db0\<lparr>sensitive_words := [ascii ''bad'']\<rparr>"

definition req_bad :: request where
  "req_bad = req1\<lparr>req_messages :=
               [\<lparr>cm_role = ascii ''user'', cm_content = Some (ascii ''so bad'')\<rparr>]\<rparr>"

text \<open>A word list whose only entry is the empty string.\<close>

definition db_blank :: db where
  "db_blank = db0\<lparr>sensitive_words := [[]]\<rparr>"

text \<open>
  A logged-in user with two enhanced and one pro turn left, and a request of theirs for
  a tier the server does not know.
\<close>

definition user1 :: user where
  "user1 = \<lparr>user_id = ascii ''u1'', token = ascii ''t1'', username = None,
            region = ascii ''CN'', tag = [], quota_enhanced = 2, quota_pro = 1,
            user_created_at = 1\<rparr>"

definition db_user :: db where
  "db_user = db0\<lparr>users := [user1]\<rparr>"

definition req_turbo :: request where
  "req_turbo = req1\<lparr>req_model := Some (ascii ''turbo''), req_userToken := Some (ascii ''t1'')\<rparr>"

text \<open>
  The same user asking for the enhanced tier, and a word list that flags the output
  \<open>hi\<close> of the backend but not the message \<open>hello\<close>.
\<close>

definition req_enhanced :: request where
  "req_enhanced = req1\<lparr>req_model := Some (ascii ''enhanced''),
                        req_userToken := Some (ascii ''t1'')\<rparr>"

definition db_hi :: db where
  "db_hi = db_user\<lparr>sensitive_words := [ascii ''hi'']\<rparr>"

text \<open>A later turn: the ids and the clock have moved on.\<close>

definition env2 :: env where
  "env2 = env1\<lparr>nanoid_user_msg := ascii ''m3'', nanoid_asst_msg := ascii ''m4'',
               nanoid_log := ascii ''l2'', now_conv := 200, now_user_msg := 200,
               now_asst_msg := 201, now_log := 201\<rparr>"

text \<open>A guest whose profile carries a user name of 1500 code units.\<close>

definition req_long :: request where
  "req_long = req1\<lparr>req_profile_username := Some (replicate 1500 0x61)\<rparr>"

text \<open>
  The same user with half a turn left, as a recharge of \<open>0.5\<close> leaves it, and with
  \<open>2 ^ 53 + 2\<close> turns left.
\<close>

definition db_half :: db where
  "db_half = db0\<lparr>users := [user1\<lparr>quota_enhanced := 1 / 2\<rparr>]\<rparr>"

definition db_big :: db where
  "db_big = db0\<lparr>users := [user1\<lparr>quota_enhanced := 9007199254740994\<rparr>]\<rparr>"

text \<open>
  A guest whose message is 119 times \<open>a\<close> and then U+1F600, which is two code units:
  120 characters, 121 code units.
\<close>

definition req_astral :: request where
  "req_astral = req1\<lparr>req_messages :=
      [\<lparr>cm_role = ascii ''user'', cm_content = Some (replicate 119 0x61 @ [0xD83D, 0xDE00])\<rparr>]\<rparr>"

text \<open>A start with \<open>PROMPT_LIMIT_ENHANCED=0\<close> in the environment.\<close>

definition db_zero_limit :: db where
  "db_zero_limit = seed_prompt_limits None (Some 0) None db0"

section \<open>Numbers and text\<close>

lemma round_half_even_int [simp]: "round_half_even (of_int j) = j"
  by (simp add: round_half_even_def)

lemma pow2_le52: "e \<le> 52 \<Longrightarrow> pow2 (e - 52) = 1 / 2 ^ nat (52 - e)"
  by (cases "e = 52") (simp_all add: pow2_def)

lemma binary_exponent_int:
  assumes "0 < m" and "m < 2 ^ 53"
  shows "binary_exponent (of_int m) \<le> 52"
proof -
  have "nat m < 2 ^ 53" using assms by (simp add: nat_less_iff)
  then have "floorlog 2 (nat m) \<le> 53" by (intro floorlog_leI) simp_all
  then have "bitlen m \<le> 53" by (simp add: bitlen_def)
  moreover have "bitlen 1 = 1" by (simp add: bitlen_alt_def)
  ultimately show ?thesis
    by (simp add: binary_exponent_def Let_def)
qed

lemma round_double_int:
  assumes "0 \<le> m" and "m < 2 ^ 53"
  shows "round_double (of_int m) = of_int m"
proof (cases "m = 0")
  case True
  then show ?thesis by (simp add: round_double_def)
next
  case False
  with assms have pos: "0 < m" by simp
  let ?e = "binary_exponent (of_int m)"
  let ?k = "nat (52 - ?e)"
  have e: "?e \<le> 52" by (rule binary_exponent_int [OF pos assms(2)])
  have abs: "\<bar>rat_of_int m\<bar> = of_int m" using pos by simp
  have ulp: "pow2 (?e - 52) = 1 / 2 ^ ?k" by (rule pow2_le52 [OF e])
  have "rat_of_int m / (1 / 2 ^ ?k) = of_int (m * 2 ^ ?k)" by simp
  then have "round_half_even (rat_of_int m / (1 / 2 ^ ?k)) = m * 2 ^ ?k"
    by (simp only: round_half_even_int)
  then show ?thesis
    using False by (simp add: round_double_def abs ulp Let_def)
qed

lemma js_minus_int:
  assumes "q \<in> \<int>" and "0 < q" and "q \<le> 2 ^ 53"
  shows "js_minus q 1 = q - 1"
proof -
  from assms(1) obtain m where m: "q = of_int m" by (auto elim: Ints_cases)
  with assms have "0 \<le> m - 1" "m - 1 < 2 ^ 53" by simp_all
  from round_double_int [OF this] m show ?thesis by (simp add: js_minus_def)
qed

lemma length_sqlite_text [simp]: "length (sqlite_text s) = length s"
  by (induction s rule: sqlite_text.induct) simp_all

section \<open>What each step of the handler leaves alone\<close>

lemma bumpKeyword_frame [simp]:
  "users (bumpKeyword date t d) = users d"
  "conversations (bumpKeyword date t d) = conversations d"
  "messages (bumpKeyword date t d) = messages d"
  "audit_logs (bumpKeyword date t d) = audit_logs d"
  "metrics_daily (bumpKeyword date t d) = metrics_daily d"
  "ip_rules (bumpKeyword date t d) = ip_rules d"
  "ip_requests (bumpKeyword date t d) = ip_requests d"
  by (simp_all add: bumpKeyword_def split: option.split)

lemma fold_bumpKeyword_frame [simp]:
  "users (fold (bumpKeyword date) ts d) = users d"
  "conversations (fold (bumpKeyword date) ts d) = conversations d"
  "messages (fold (bumpKeyword date) ts d) = messages d"
  "audit_logs (fold (bumpKeyword date) ts d) = audit_logs d"
  "metrics_daily (fold (bumpKeyword date) ts d) = metrics_daily d"
  "ip_rules (fold (bumpKeyword date) ts d) = ip_rules d"
  "ip_requests (fold (bumpKeyword date) ts d) = ip_requests d"
  by (induction ts arbitrary: d; simp)+

lemma updateTrafficMetric_frame [simp]:
  "users (updateTrafficMetric date ty k d) = users d"
  "conversations (updateTrafficMetric date ty k d) = conversations d"
  "messages (updateTrafficMetric date ty k d) = messages d"
  "audit_logs (updateTrafficMetric date ty k d) = audit_logs d"
  "metrics_daily (updateTrafficMetric date ty k d) = metrics_daily d"
  "ip_rules (updateTrafficMetric date ty k d) = ip_rules d"
  "ip_requests (updateTrafficMetric date ty k d) = ip_requests d"
  by (simp_all add: updateTrafficMetric_def split: option.split)

lemma record_metrics_frame [simp]:
  "users (record_metrics e req usg d) = users d"
  "conversations (record_metrics e req usg d) = conversations d"
  "messages (record_metrics e req usg d) = messages d"
  "audit_logs (record_metrics e req usg d) = audit_logs d"
  "ip_rules (record_metrics e req usg d) = ip_rules d"
  "ip_requests (record_metrics e req usg d) = ip_requests d"
  by (simp_all add: record_metrics_def updateKeywordMetric_def upsertMetric_def Let_def)

lemma record_metrics_daily:
  "metrics_daily (record_metrics e req usg d) (today e) =
     Some \<lparr>total_requests = total_requests (existingDaily d (today e)) + 1,
           avg_latency = round_div (avg_latency (existingDaily d (today e))
                                    * total_requests (existingDaily d (today e)) + latencyMs e)
                                   (total_requests (existingDaily d (today e)) + 1),
           token_total = token_total (existingDaily d (today e)) + total_tokens usg,
           concurrent_peak = max (concurrent_peak (existingDaily d (today e))) 1\<rparr>"
  by (simp add: record_metrics_def updateKeywordMetric_def upsertMetric_def Let_def)

lemma commit_quota_frame [simp]:
  "conversations (commit_quota req u d) = conversations d"
  "messages (commit_quota req u d) = messages d"
  "audit_logs (commit_quota req u d) = audit_logs d"
  "metrics_daily (commit_quota req u d) = metrics_daily d"
  "ip_rules (commit_quota req u d) = ip_rules d"
  "ip_requests (commit_quota req u d) = ip_requests d"
  by (simp_all add: commit_quota_def split: option.split)

lemma ensure_conversation_frame [simp]:
  "users (ensure_conversation e req u d) = users d"
  "messages (ensure_conversation e req u d) = messages d"
  "audit_logs (ensure_conversation e req u d) = audit_logs d"
  "metrics_daily (ensure_conversation e req u d) = metrics_daily d"
  "ip_rules (ensure_conversation e req u d) = ip_rules d"
  "ip_requests (ensure_conversation e req u d) = ip_requests d"
  by (simp_all add: ensure_conversation_def split: option.split)

lemma insertMessage_Some:
  "insertMessage m d = Some d' \<Longrightarrow>
     d' = d\<lparr>messages := messages d @ [m]\<rparr> \<and> msg_id m \<notin> set (map msg_id (messages d))"
  by (auto simp: insertMessage_def split: if_splits)

lemma addLog_Some:
  "addLog l d = Some d' \<Longrightarrow>
     d' = d\<lparr>audit_logs := audit_logs d @ [l]\<rparr> \<and> log_id l \<notin> set (map log_id (audit_logs d))"
  by (auto simp: addLog_def split: if_splits)

lemma post_stream_ip [simp]:
  "ip_rules (r_db (post_stream e req d p st)) = ip_rules d"
  "ip_requests (r_db (post_stream e req d p st)) = ip_requests d"
  by (auto simp: post_stream_def Let_def split: option.splits if_splits
           dest!: insertMessage_Some addLog_Some)

lemma chat_message_ip [simp]:
  "ip_rules (r_db (chat_message e req d)) = ip_rules d"
  "ip_requests (r_db (chat_message e req d)) = ip_requests d"
  by (auto simp: chat_message_def Let_def split: option.splits fetch_result.splits prod.splits)

section \<open>Outcomes of the handler\<close>

lemma precheck_codes:
  "precheck e req d = Some (s, c) \<Longrightarrow>
     (s, c) \<in> {(400, 2), (500, 3), (400, 6), (400, 7), (400, 8)}"
  unfolding precheck_def Let_def by (simp split: if_splits)

lemma post_stream_outcome:
  "r_outcome (post_stream e req d p st) = Json 500 5
   \<or> r_outcome (post_stream e req d p st) = Streamed"
  unfolding post_stream_def Let_def by (simp split: option.split)

lemma chat_message_admitted: "admitted (chat_message e req d)"
proof (cases "precheck e req d")
  case (Some sc)
  obtain s c where sc: "sc = (s, c)" by (cases sc)
  from precheck_codes [of e req d s c] Some sc show ?thesis
    by (auto simp: chat_message_def admitted_def)
next
  case None
  show ?thesis
  proof (cases "fetch e (build_payload e req d)")
    case FetchThrows
    with None show ?thesis by (simp add: chat_message_def admitted_def)
  next
    case (FetchResponse ok body)
    show ?thesis
    proof (cases body)
      case None
      with \<open>precheck e req d = None\<close> FetchResponse show ?thesis
        by (simp add: chat_message_def admitted_def)
    next
      case (Some b)
      obtain chunks ends where b: "b = (chunks, ends)" by (cases b)
      from post_stream_outcome [of e req d "build_payload e req d" "consume_stream e chunks"]
        \<open>precheck e req d = None\<close> FetchResponse Some b
      show ?thesis
        by (auto simp: chat_message_def admitted_def Let_def)
    qed
  qed
qed

section \<open>The handler, case by case\<close>

lemma js_includes_sublist: "js_includes s w \<longleftrightarrow> sublist w s"
  by (induction s) (auto simp: sublist_Cons_right)

lemma checkSensitive_iff:
  "checkSensitive d content \<longleftrightarrow> (\<exists>w \<in> set (sensitive_words d). w \<noteq> [] \<and> sublist w content)"
  by (auto simp: checkSensitive_def getSensitiveWords_def list_ex_iff js_includes_sublist)

lemma chat_message_rejected:
  "precheck e req d = Some (s, c) \<Longrightarrow>
     chat_message e req d = \<lparr>r_db = d, r_outcome = Json s c, r_events = [], r_calls = []\<rparr>"
  by (simp add: chat_message_def)

lemma chat_message_upstream:
  assumes "precheck e req d = None"
    and "fetch e (build_payload e req d) = FetchResponse ok body"
    and "\<not> ok \<or> body = None"
  shows "chat_message e req d =
           \<lparr>r_db = d, r_outcome = Json 500 4, r_events = [], r_calls = [build_payload e req d]\<rparr>"
proof (cases body)
  case None
  with assms(1,2) show ?thesis by (simp add: chat_message_def)
next
  case (Some b)
  obtain chunks ends where "b = (chunks, ends)" by (cases b)
  with Some assms show ?thesis by (simp add: chat_message_def)
qed

lemma chat_message_streamed:
  assumes "precheck e req d = None"
    and "fetch e (build_payload e req d) = FetchResponse True (Some (chunks, True))"
  shows "chat_message e req d =
           post_stream e req d (build_payload e req d) (consume_stream e chunks)"
  using assms by (simp add: chat_message_def)

lemma chat_message_calls:
  "precheck e req d = None \<Longrightarrow> r_calls (chat_message e req d) = [build_payload e req d]"
  by (auto simp: chat_message_def post_stream_def Let_def
           split: fetch_result.split option.split prod.split)

lemma chat_message_Streamed:
  assumes "r_outcome (chat_message e req d) = Streamed"
  shows "precheck e req d = None
         \<and> (\<exists>chunks. fetch e (build_payload e req d) = FetchResponse True (Some (chunks, True)))"
proof (cases "precheck e req d")
  case (Some sc)
  obtain s c where "sc = (s, c)" by (cases sc)
  with Some assms show ?thesis by (simp add: chat_message_def)
next
  case None
  show ?thesis
  proof (cases "fetch e (build_payload e req d)")
    case FetchThrows
    with None assms show ?thesis by (simp add: chat_message_def)
  next
    case (FetchResponse ok body)
    show ?thesis
    proof (cases body)
      case None
      with \<open>precheck e req d = None\<close> FetchResponse assms show ?thesis
        by (simp add: chat_message_def)
    next
      case (Some b)
      obtain chunks ends where "b = (chunks, ends)" by (cases b)
      with \<open>precheck e req d = None\<close> FetchResponse Some assms show ?thesis
        by (simp add: chat_message_def Let_def split: if_splits)
    qed
  qed
qed

lemma message_fields [simp]:
  "msg_id (user_message e req) = nanoid_user_msg e"
  "msg_id (assistant_message e req content usg) = nanoid_asst_msg e"
  "msg_conversation_id (user_message e req) = convId e req"
  "msg_conversation_id (assistant_message e req content usg) = convId e req"
  "msg_created_at (user_message e req) = now_user_msg e"
  "msg_created_at (assistant_message e req content usg) = now_asst_msg e"
  "msg_content (assistant_message e req content usg) = content"
  "msg_content (user_message e req) = lastContent req"
  "usage_prompt (assistant_message e req content usg) = input_tokens usg"
  "usage_completion (assistant_message e req content usg) = output_tokens usg"
  "log_id (chat_log e req u) = nanoid_log e"
  by (simp_all add: user_message_def assistant_message_def chat_log_def)

lemma insertMessage_fresh:
  "msg_id m \<notin> set (map msg_id (messages d)) \<Longrightarrow>
     insertMessage m d = Some (d\<lparr>messages := messages d @ [m]\<rparr>)"
  by (simp add: insertMessage_def)

lemma insertMessage_taken:
  "msg_id m \<in> set (map msg_id (messages d)) \<Longrightarrow> insertMessage m d = None"
  by (simp add: insertMessage_def)

lemma addLog_fresh:
  "log_id l \<notin> set (map log_id (audit_logs d)) \<Longrightarrow>
     addLog l d = Some (d\<lparr>audit_logs := audit_logs d @ [l]\<rparr>)"
  by (simp add: addLog_def)

lemma addLog_taken:
  "log_id l \<in> set (map log_id (audit_logs d)) \<Longrightarrow> addLog l d = None"
  by (simp add: addLog_def)

lemma post_stream_fresh:
  assumes "fresh_ids e req d"
  shows "post_stream e req d p st =
           \<lparr>r_db = (accounted e req d (st_usage st))
                     \<lparr>messages := messages d
                         @ (if lastContent req \<noteq> [] then [user_message e req] else [])
                         @ [assistant_message e req (screened d (st_content st)) (st_usage st)],
                      audit_logs := audit_logs d @ [chat_log e req (find_user d req)]\<rparr>,
            r_outcome = Streamed,
            r_events = st_events st
              @ (if checkSensitive d (st_content st) then [Replace refusal] else [])
              @ [final_event e (find_user d req) (st_usage st)
                   ((accounted e req d (st_usage st))
                     \<lparr>messages := messages d
                         @ (if lastContent req \<noteq> [] then [user_message e req] else [])
                         @ [assistant_message e req (screened d (st_content st)) (st_usage st)],
                      audit_logs := audit_logs d @ [chat_log e req (find_user d req)]\<rparr>)],
            r_calls = [p]\<rparr>"
proof (cases "lastContent req = []")
  case True
  with assms show ?thesis
    by (simp add: post_stream_def accounted_def fresh_ids_def Let_def screened_def
          insertMessage_fresh addLog_fresh)
next
  case False
  with assms show ?thesis
    by (simp add: post_stream_def accounted_def fresh_ids_def Let_def screened_def
          insertMessage_fresh addLog_fresh)
qed

lemma post_stream_not_fresh:
  assumes "\<not> fresh_ids e req d"
  shows "r_outcome (post_stream e req d p st) = Json 500 5"
proof -
  have "r_outcome (post_stream e req d p st) \<noteq> Streamed"
  proof
    assume ok: "r_outcome (post_stream e req d p st) = Streamed"
    let ?d3 = "accounted e req d (st_usage st)"
    have m3: "messages ?d3 = messages d" and l3: "audit_logs ?d3 = audit_logs d"
      by (simp_all add: accounted_def)
    show False
    proof (cases "lastContent req = []")
      case True
      from ok True obtain d5 where
          i2: "insertMessage (assistant_message e req (screened d (st_content st)) (st_usage st)) ?d3 = Some d5"
          and i3: "addLog (chat_log e req (find_user d req)) d5 \<noteq> None"
        by (auto simp: post_stream_def accounted_def Let_def split: option.splits)
      from insertMessage_Some [OF i2] m3
      have "nanoid_asst_msg e \<notin> set (map msg_id (messages d))"
        and "audit_logs d5 = audit_logs d" using l3 by simp_all
      moreover from i3 this(2) have "nanoid_log e \<notin> set (map log_id (audit_logs d))"
        by (auto simp: addLog_def split: if_splits)
      ultimately show False using assms True by (simp add: fresh_ids_def)
    next
      case False
      from ok False obtain d4 d5 where
          i1: "insertMessage (user_message e req) ?d3 = Some d4"
          and i2: "insertMessage (assistant_message e req (screened d (st_content st)) (st_usage st)) d4 = Some d5"
          and i3: "addLog (chat_log e req (find_user d req)) d5 \<noteq> None"
        by (auto simp: post_stream_def accounted_def Let_def split: option.splits)
      from insertMessage_Some [OF i1] m3 l3
      have u: "nanoid_user_msg e \<notin> set (map msg_id (messages d))"
        and m4: "messages d4 = messages d @ [user_message e req]"
        and l4: "audit_logs d4 = audit_logs d" by simp_all
      from insertMessage_Some [OF i2] m4 l4
      have a: "nanoid_asst_msg e \<notin> set (map msg_id (messages d))"
          "nanoid_asst_msg e \<noteq> nanoid_user_msg e"
        and l5: "audit_logs d5 = audit_logs d" by simp_all
      from i3 l5 have "nanoid_log e \<notin> set (map log_id (audit_logs d))"
        by (auto simp: addLog_def split: if_splits)
      with u a show False using assms by (simp add: fresh_ids_def)
    qed
  qed
  with post_stream_outcome [of e req d p st] show ?thesis by simp
qed

lemma post_stream_Streamed_iff:
  "r_outcome (post_stream e req d p st) = Streamed \<longleftrightarrow> fresh_ids e req d"
proof
  assume "r_outcome (post_stream e req d p st) = Streamed"
  with post_stream_not_fresh [of e req d p st] show "fresh_ids e req d" by auto
next
  assume "fresh_ids e req d"
  from post_stream_fresh [OF this, of p st] show "r_outcome (post_stream e req d p st) = Streamed"
    by simp
qed

section \<open>Admission\<close>

lemma checkIpRules_limited:
  assumes "\<not> blocked d ip" and "limit_of d ip = Some lmt" and "lmt \<noteq> 0"
  shows "checkIpRules ip date d =
           (if current_count d ip date \<ge> lmt then RateLimited
            else Admitted (d\<lparr>ip_requests := (ip_requests d)((ip, date) \<mapsto> current_count d ip date + 1)\<rparr>))"
proof -
  from assms(2) obtain r where r: "find (\<lambda>r. rule_ip r = ip \<and> rule_type r = Limit) (ip_rules d) = Some r"
      "limit_value r = Some lmt"
    by (cases "find (\<lambda>r. rule_ip r = ip \<and> rule_type r = Limit) (ip_rules d)")
       (simp_all add: limit_of_def)
  from assms(1) have nb: "\<not> list_ex (\<lambda>r. rule_ip r = ip \<and> rule_type r = Block) (ip_rules d)"
    by (simp add: blocked_def)
  show ?thesis
  proof (cases "ip_requests d (ip, date)")
    case None
    with r nb assms(3) show ?thesis
      by (simp add: checkIpRules_def current_count_def)
  next
    case (Some c)
    with r nb assms(3) show ?thesis
      by (simp add: checkIpRules_def current_count_def)
  qed
qed

lemma checkIpRules_unlimited:
  assumes "\<not> blocked d ip" and "limit_of d ip = None \<or> limit_of d ip = Some 0"
  shows "checkIpRules ip date d = Admitted d"
proof -
  from assms(1) have nb: "\<not> list_ex (\<lambda>r. rule_ip r = ip \<and> rule_type r = Block) (ip_rules d)"
    by (simp add: blocked_def)
  show ?thesis
  proof (cases "find (\<lambda>r. rule_ip r = ip \<and> rule_type r = Limit) (ip_rules d)")
    case None
    with nb show ?thesis by (simp add: checkIpRules_def)
  next
    case (Some r)
    with assms(2) have "limit_value r = None \<or> limit_value r = Some 0"
      by (simp add: limit_of_def)
    with Some nb show ?thesis by (auto simp: checkIpRules_def)
  qed
qed

lemma chat_request_limited_step:
  assumes "\<not> blocked d ip" and "limit_of d ip = Some lmt" and "lmt \<noteq> 0"
    and "req_ip req = ip" and "ip_today e = date"
  shows "current_count d ip date < lmt \<Longrightarrow>
           admitted (chat_request e req d)
           \<and> current_count (r_db (chat_request e req d)) ip date = current_count d ip date + 1
           \<and> ip_rules (r_db (chat_request e req d)) = ip_rules d"
    and "lmt \<le> current_count d ip date \<Longrightarrow>
           r_outcome (chat_request e req d) = Json 429 10 \<and> r_db (chat_request e req d) = d"
proof -
  note adm = checkIpRules_limited [OF assms(1-3), of date]
  show "lmt \<le> current_count d ip date \<Longrightarrow>
           r_outcome (chat_request e req d) = Json 429 10 \<and> r_db (chat_request e req d) = d"
    using adm assms(4,5) by (simp add: chat_request_def)
  show "current_count d ip date < lmt \<Longrightarrow>
           admitted (chat_request e req d)
           \<and> current_count (r_db (chat_request e req d)) ip date = current_count d ip date + 1
           \<and> ip_rules (r_db (chat_request e req d)) = ip_rules d"
    using adm assms(4,5)
    by (simp add: chat_request_def chat_message_admitted current_count_def)
qed

lemma blocked_cong: "ip_rules d' = ip_rules d \<Longrightarrow> blocked d' ip = blocked d ip"
  by (simp add: blocked_def)

lemma limit_of_cong: "ip_rules d' = ip_rules d \<Longrightarrow> limit_of d' ip = limit_of d ip"
  by (simp add: limit_of_def)

lemma chat_request_other_key:
  assumes "k \<noteq> (req_ip req, ip_today e)"
  shows "ip_requests (r_db (chat_request e req d)) k = ip_requests d k"
proof (cases "checkIpRules (req_ip req) (ip_today e) d")
  case Blocked
  then show ?thesis by (simp add: chat_request_def)
next
  case RateLimited
  then show ?thesis by (simp add: chat_request_def)
next
  case (Admitted d')
  have "ip_requests d' k = ip_requests d k"
  proof (cases "blocked d (req_ip req)")
    case True
    with Admitted show ?thesis by (simp add: checkIpRules_def blocked_def)
  next
    case nb: False
    show ?thesis
    proof (cases "limit_of d (req_ip req) = None \<or> limit_of d (req_ip req) = Some 0")
      case True
      from checkIpRules_unlimited [OF nb True, of "ip_today e"] Admitted show ?thesis by simp
    next
      case False
      then obtain lmt where "limit_of d (req_ip req) = Some lmt" "lmt \<noteq> 0" by auto
      from checkIpRules_limited [OF nb this, of "ip_today e"] Admitted assms show ?thesis
        by (auto split: if_splits)
    qed
  qed
  with Admitted show ?thesis by (simp add: chat_request_def)
qed

lemma serve_limited:
  assumes "\<not> blocked d ip" and "limit_of d ip = Some lmt" and "lmt \<noteq> 0"
    and "list_all (\<lambda>(e, req). req_ip req = ip \<and> ip_today e = date) rs"
    and "current_count d ip date + int (length rs) \<le> lmt"
  shows "list_all admitted (serve d rs)
         \<and> current_count (after d rs) ip date = current_count d ip date + int (length rs)
         \<and> ip_rules (after d rs) = ip_rules d
         \<and> (date' \<noteq> date \<longrightarrow> ip_requests (after d rs) (ip, date') = ip_requests d (ip, date'))"
  using assms
proof (induction rs arbitrary: d)
  case Nil
  then show ?case by simp
next
  case (Cons x rs)
  obtain e req where x: "x = (e, req)" by (cases x)
  let ?d = "r_db (chat_request e req d)"
  from Cons.prems(4) x have from_ip: "req_ip req = ip" "ip_today e = date" by simp_all
  from Cons.prems(5) have lt: "current_count d ip date < lmt" by simp
  have step: "admitted (chat_request e req d)"
      "current_count ?d ip date = current_count d ip date + 1"
      "ip_rules ?d = ip_rules d"
    using chat_request_limited_step(1) [OF Cons.prems(1-3) from_ip lt] by blast+
  have other: "date' \<noteq> date \<longrightarrow> ip_requests ?d (ip, date') = ip_requests d (ip, date')"
    using chat_request_other_key [of "(ip, date')" req e d] from_ip by simp
  have "list_all admitted (serve ?d rs)
        \<and> current_count (after ?d rs) ip date = current_count ?d ip date + int (length rs)
        \<and> ip_rules (after ?d rs) = ip_rules ?d
        \<and> (date' \<noteq> date \<longrightarrow> ip_requests (after ?d rs) (ip, date') = ip_requests ?d (ip, date'))"
  proof (rule Cons.IH)
    show "\<not> blocked ?d ip" using Cons.prems(1) blocked_cong [OF step(3)] by simp
    show "limit_of ?d ip = Some lmt" using Cons.prems(2) limit_of_cong [OF step(3)] by simp
    show "lmt \<noteq> 0" by fact
    show "list_all (\<lambda>(e, req). req_ip req = ip \<and> ip_today e = date) rs"
      using Cons.prems(4) by simp
    show "current_count ?d ip date + int (length rs) \<le> lmt"
      using Cons.prems(5) step(2) by simp
  qed
  then show ?case unfolding x using step other by simp
qed

lemma checkIpRules_Admitted:
  assumes "checkIpRules ip date d = Admitted d1"
  shows "d1 = d\<lparr>ip_requests :=
                   (if limit_of d ip = None \<or> limit_of d ip = Some 0 then ip_requests d
                    else (ip_requests d)((ip, date) \<mapsto> current_count d ip date + 1))\<rparr>"
proof (cases "blocked d ip")
  case True
  with assms show ?thesis by (simp add: checkIpRules_def blocked_def)
next
  case nb: False
  show ?thesis
  proof (cases "limit_of d ip = None \<or> limit_of d ip = Some 0")
    case True
    from checkIpRules_unlimited [OF nb True, of date] assms True show ?thesis by simp
  next
    case False
    then obtain lmt where lmt: "limit_of d ip = Some lmt" "lmt \<noteq> 0" by auto
    from checkIpRules_limited [OF nb lmt, of date] assms False show ?thesis
      by (simp split: if_splits)
  qed
qed

lemma post_stream_users:
  "users (r_db (post_stream e req d p st)) = users (commit_quota req (find_user d req) d)"
proof -
  let ?d3 = "accounted e req d (st_usage st)"
  have u3: "users ?d3 = users (commit_quota req (find_user d req) d)"
    by (simp add: accounted_def commit_quota_def split: option.split)
  have "users (r_db (post_stream e req d p st)) = users ?d3"
    by (auto simp: post_stream_def accounted_def Let_def split: option.splits
             dest!: insertMessage_Some addLog_Some)
  with u3 show ?thesis by simp
qed

lemma chat_message_users:
  "users (r_db (chat_message e req d)) = users d
   \<or> (precheck e req d = None
      \<and> users (r_db (chat_message e req d)) = users (commit_quota req (find_user d req) d))"
  by (auto simp: chat_message_def post_stream_users Let_def
           split: option.splits fetch_result.splits prod.splits)

lemma commit_quota_other_tier:
  assumes "req_model req \<noteq> Some (ascii ''enhanced'')" and "req_model req \<noteq> Some (ascii ''pro'')"
  shows "commit_quota req u d = d"
  using assms by (simp add: commit_quota_def split: option.split)

lemma precheck_other_tier:
  assumes "req_model req \<noteq> Some (ascii ''enhanced'')" and "req_model req \<noteq> Some (ascii ''pro'')"
  shows "precheck e req d =
           (if checkSensitive d (lastContent req) \<and> userTag (find_user d req) \<noteq> ascii ''trusted''
            then Some (400, 2)
            else if apiKey e = [] then Some (500, 3) else None)"
  using assms by (simp add: precheck_def Let_def)

lemma chat_message_outcome_passed:
  assumes "precheck e req d = None"
  shows "r_outcome (chat_message e req d) = Json 500 5
         \<or> r_outcome (chat_message e req d) = Json 500 4
         \<or> r_outcome (chat_message e req d) = Streamed"
proof (cases "fetch e (build_payload e req d)")
  case FetchThrows
  with assms show ?thesis by (simp add: chat_message_def)
next
  case (FetchResponse ok body)
  show ?thesis
  proof (cases body)
    case None
    with assms FetchResponse show ?thesis by (simp add: chat_message_def)
  next
    case (Some b)
    obtain chunks ends where b: "b = (chunks, ends)" by (cases b)
    from post_stream_outcome [of e req d "build_payload e req d" "consume_stream e chunks"]
      assms FetchResponse Some b
    show ?thesis by (auto simp: chat_message_def Let_def)
  qed
qed

lemma find_token_map:
  assumes "\<And>r. token (f r) = token r"
  shows "find (\<lambda>r. Some (token r) = t) (map f xs) = map_option f (find (\<lambda>r. Some (token r) = t) xs)"
  using assms by (induction xs) simp_all

lemma find_user_users:
  "users d' = users d \<Longrightarrow> find_user d' req = find_user d req"
  by (simp add: find_user_def)

lemma find_user_commit_quota:
  assumes "find_user d req = Some u" and "users d' = users (commit_quota req (Some u) d)"
  shows "find_user d' req =
           Some (if req_model req = Some (ascii ''enhanced'')
                 then u\<lparr>quota_enhanced := js_minus (quota_enhanced u) 1\<rparr>
                 else if req_model req = Some (ascii ''pro'')
                 then u\<lparr>quota_pro := js_minus (quota_pro u) 1\<rparr>
                 else u)"
proof -
  from assms(1) have t: "truthy (req_userToken req)"
      and f: "find (\<lambda>r. Some (token r) = req_userToken req) (users d) = Some u"
    by (auto simp: find_user_def split: if_splits)
  show ?thesis
  proof (cases "req_model req = Some (ascii ''enhanced'')")
    case True
    let ?f = "\<lambda>r. if user_id r = user_id u then r\<lparr>quota_enhanced := js_minus (quota_enhanced u) 1\<rparr> else r"
    have "users d' = map ?f (users d)" using assms(2) True by (simp add: commit_quota_def)
    moreover have "find (\<lambda>r. Some (token r) = req_userToken req) (map ?f (users d))
                   = map_option ?f (find (\<lambda>r. Some (token r) = req_userToken req) (users d))"
      by (rule find_token_map) simp
    ultimately show ?thesis using t f True by (simp add: find_user_def)
  next
    case ne: False
    show ?thesis
    proof (cases "req_model req = Some (ascii ''pro'')")
      case True
      let ?f = "\<lambda>r. if user_id r = user_id u then r\<lparr>quota_pro := js_minus (quota_pro u) 1\<rparr> else r"
      have "users d' = map ?f (users d)" using assms(2) True ne by (simp add: commit_quota_def)
      moreover have "find (\<lambda>r. Some (token r) = req_userToken req) (map ?f (users d))
                     = map_option ?f (find (\<lambda>r. Some (token r) = req_userToken req) (users d))"
        by (rule find_token_map) simp
      ultimately show ?thesis using t f True ne by (simp add: find_user_def)
    next
      case False
      with ne assms(2) have "users d' = users d" by (simp add: commit_quota_def)
      from find_user_users [OF this, of req] assms(1) ne False show ?thesis by simp
    qed
  qed
qed

lemma find_snoc:
  "find P (xs @ [y]) = (case find P xs of None \<Rightarrow> (if P y then Some y else None) | Some x \<Rightarrow> Some x)"
  by (induction xs) simp_all

lemma ensure_conversation_found:
  "find (\<lambda>c. conv_id c = convId e req) (conversations (ensure_conversation e req u d)) \<noteq> None"
  by (cases "find (\<lambda>c. conv_id c = convId e req) (conversations d)")
     (simp_all add: ensure_conversation_def find_snoc)

lemma accounted_fields [simp]:
  "users (accounted e req d usg) = users (commit_quota req (find_user d req) d)"
  "messages (accounted e req d usg) = messages d"
  "audit_logs (accounted e req d usg) = audit_logs d"
  "metrics_daily (accounted e req d usg) = metrics_daily (record_metrics e req usg d)"
  "ip_rules (accounted e req d usg) = ip_rules d"
  "ip_requests (accounted e req d usg) = ip_requests d"
  by (simp_all add: accounted_def commit_quota_def split: option.split)

lemma accounted_conversation:
  "find (\<lambda>c. conv_id c = convId e req) (conversations (accounted e req d usg)) \<noteq> None"
  by (simp add: accounted_def ensure_conversation_found)

lemma sort_key_two:
  "f a \<le> f b \<Longrightarrow> sort_key f [a, b] = [a, b]"
  by simp

lemma find_user_identity:
  "req_userToken req = Some tk \<Longrightarrow> tk \<noteq> [] \<Longrightarrow> find_user d req = identity d tk"
  by (simp add: find_user_def identity_def truthy_def)

lemma chat_request_Streamed:
  assumes "r_outcome (chat_request e req d) = Streamed"
  shows "\<exists>d1. chat_request e req d = chat_message e req d1 \<and> users d1 = users d"
proof (cases "checkIpRules (req_ip req) (ip_today e) d")
  case Blocked
  with assms show ?thesis by (simp add: chat_request_def)
next
  case RateLimited
  with assms show ?thesis by (simp add: chat_request_def)
next
  case (Admitted d1)
  have "users d1 = users d" by (subst checkIpRules_Admitted [OF Admitted]) simp
  with Admitted show ?thesis by (auto simp: chat_request_def)
qed

lemma chat_request_users_frame:
  "\<exists>d1. chat_request e req d = chat_message e req d1 \<and> users d1 = users d
   \<or> chat_request e req d = \<lparr>r_db = d, r_outcome = Json 403 9, r_events = [], r_calls = []\<rparr>
   \<or> chat_request e req d = \<lparr>r_db = d, r_outcome = Json 429 10, r_events = [], r_calls = []\<rparr>"
proof (cases "checkIpRules (req_ip req) (ip_today e) d")
  case Blocked
  then show ?thesis by (simp add: chat_request_def)
next
  case RateLimited
  then show ?thesis by (simp add: chat_request_def)
next
  case (Admitted d1)
  have "users d1 = users d" by (subst checkIpRules_Admitted [OF Admitted]) simp
  with Admitted show ?thesis by (auto simp: chat_request_def)
qed

lemma precheck_premium:
  assumes "tier = ascii ''enhanced'' \<or> tier = ascii ''pro''"
    and "req_model req = Some tier" and "find_user d req = Some u"
  shows "precheck e req d = None \<Longrightarrow> 0 < tier_quota tier u"
    and "tier_quota tier u \<le> 0 \<Longrightarrow> \<exists>s c. precheck e req d = Some (s, c)"
proof -
  have ne: "ascii ''pro'' \<noteq> ascii ''enhanced''" by (simp add: ascii_def)
  have a: "precheck e req d = None \<Longrightarrow> 0 < tier_quota tier u"
    using assms ne by (auto simp: precheck_def tier_quota_def Let_def split: if_splits)
  show "precheck e req d = None \<Longrightarrow> 0 < tier_quota tier u" by (rule a)
  show "tier_quota tier u \<le> 0 \<Longrightarrow> \<exists>s c. precheck e req d = Some (s, c)"
    using a by (cases "precheck e req d") auto
qed

lemma serve_take: "serve d (take k rs) = take k (serve d rs)"
proof (induction rs arbitrary: d k)
  case Nil
  then show ?case by simp
next
  case (Cons x rs)
  obtain e req where "x = (e, req)" by (cases x)
  with Cons show ?case by (cases k) simp_all
qed

lemma list_all_take: "list_all P xs \<Longrightarrow> list_all P (take k xs)"
  by (auto simp: list_all_iff dest: in_set_takeD)

lemma premium_rejected:
  assumes "tier = ascii ''enhanced'' \<or> tier = ascii ''pro''"
    and "tk \<noteq> []"
    and "identity d tk = Some u"
    and "req_userToken req = Some tk" and "req_model req = Some tier"
    and "tier_quota tier u \<le> 0"
  shows "r_calls (chat_request e req d) = [] \<and> r_events (chat_request e req d) = []
         \<and> r_outcome (chat_request e req d) \<noteq> Streamed
         \<and> users (r_db (chat_request e req d)) = users d"
proof -
  from chat_request_users_frame [of e req d]
  consider d1 where "chat_request e req d = chat_message e req d1" "users d1 = users d"
    | "chat_request e req d = \<lparr>r_db = d, r_outcome = Json 403 9, r_events = [], r_calls = []\<rparr>"
    | "chat_request e req d = \<lparr>r_db = d, r_outcome = Json 429 10, r_events = [], r_calls = []\<rparr>"
    by blast
  then show ?thesis
  proof cases
    case 1
    have fu: "find_user d1 req = Some u"
      using find_user_identity [OF assms(4,2), of d1] assms(3) 1(2) by (simp add: identity_def)
    from precheck_premium(2) [OF assms(1,5) fu assms(6), of e] obtain s c where
        "precheck e req d1 = Some (s, c)" by blast
    from chat_message_rejected [OF this] 1 show ?thesis by simp
  next
    case 2
    then show ?thesis by simp
  next
    case 3
    then show ?thesis by simp
  qed
qed

lemma ascii_tiers:
  "ascii ''normal'' \<noteq> ascii ''enhanced''" "ascii ''normal'' \<noteq> ascii ''pro''"
  "ascii ''enhanced'' \<noteq> ascii ''pro''" "ascii ''normal'' \<noteq> []"
  "ascii ''enhanced'' \<noteq> []" "ascii ''pro'' \<noteq> []"
  by (simp_all add: ascii_def)

lemma reaches_accounting_users:
  assumes "reaches_accounting e req d"
  shows "users (r_db (chat_message e req d)) = users (commit_quota req (find_user d req) d)"
proof -
  from assms have pre: "precheck e req d = None" by (simp add: reaches_accounting_def)
  from assms obtain chunks where
      f: "fetch e (build_payload e req d) = FetchResponse True (Some (chunks, True))"
    by (auto simp: reaches_accounting_def split: fetch_result.splits option.splits)
  from chat_message_streamed [OF pre f] post_stream_users [of e req d] show ?thesis by simp
qed

lemma not_reaches_accounting:
  assumes "\<not> reaches_accounting e req d"
  shows "r_db (chat_message e req d) = d \<and> r_outcome (chat_message e req d) \<noteq> Streamed"
proof (cases "precheck e req d")
  case (Some sc)
  obtain s c where "sc = (s, c)" by (cases sc)
  with Some show ?thesis by (simp add: chat_message_def)
next
  case None
  show ?thesis
  proof (cases "fetch e (build_payload e req d)")
    case FetchThrows
    with None show ?thesis by (simp add: chat_message_def)
  next
    case (FetchResponse ok body)
    show ?thesis
    proof (cases body)
      case None
      with \<open>precheck e req d = None\<close> FetchResponse show ?thesis
        by (simp add: chat_message_def)
    next
      case (Some b)
      obtain chunks ends where b: "b = (chunks, ends)" by (cases b)
      from assms \<open>precheck e req d = None\<close> FetchResponse Some b
      have "\<not> (ok \<and> ends)" by (simp add: reaches_accounting_def)
      with \<open>precheck e req d = None\<close> FetchResponse Some b show ?thesis
        by (auto simp: chat_message_def Let_def)
    qed
  qed
qed

lemma turn_accounts_cases:
  "(turn_accounts e req d \<and>
      (\<exists>d1. users d1 = users d \<and> reaches_accounting e req d1
            \<and> chat_request e req d = chat_message e req d1))
   \<or> (\<not> turn_accounts e req d \<and> users (r_db (chat_request e req d)) = users d
        \<and> r_outcome (chat_request e req d) \<noteq> Streamed)"
proof (cases "checkIpRules (req_ip req) (ip_today e) d")
  case Blocked
  then show ?thesis by (simp add: turn_accounts_def chat_request_def)
next
  case RateLimited
  then show ?thesis by (simp add: turn_accounts_def chat_request_def)
next
  case (Admitted d1)
  have u: "users d1 = users d" by (subst checkIpRules_Admitted [OF Admitted]) simp
  have cr: "chat_request e req d = chat_message e req d1"
    using Admitted by (simp add: chat_request_def)
  show ?thesis
  proof (cases "reaches_accounting e req d1")
    case True
    with Admitted u cr show ?thesis by (auto simp: turn_accounts_def)
  next
    case False
    from not_reaches_accounting [OF False] u cr Admitted False show ?thesis
      by (simp add: turn_accounts_def)
  qed
qed


text \<open>The counter of one identity along a run of requests.\<close>


lemma find_SomeD: "find P xs = Some x \<Longrightarrow> x \<in> set xs \<and> P x"
  by (induction xs) (auto split: if_splits)

lemma find_token_map_eq:
  assumes "\<And>r. token (f r) = token r"
  shows "find (\<lambda>r. token r = tk) (map f xs) = map_option f (find (\<lambda>r. token r = tk) xs)"
  using assms by (induction xs) simp_all

lemma distinct_user_id:
  assumes "distinct (map user_id xs)" and "u \<in> set xs" and "v \<in> set xs"
    and "user_id u = user_id v"
  shows "u = v"
  using assms by (auto simp: distinct_map dest: inj_onD)


lemma commit_quota_identity:
  assumes dist: "distinct (map user_id (users d))"
    and idn: "identity d tk = Some u" and tk: "tk \<noteq> []"
    and tier: "tier = ascii ''enhanced'' \<or> tier = ascii ''pro''"
    and us: "users d' = users (commit_quota req (find_user d req) d)"
  shows "\<exists>u'. identity d' tk = Some u'
           \<and> tier_quota tier u' =
               (if req_userToken req = Some tk \<and> req_model req = Some tier
                then js_minus (tier_quota tier u) 1 else tier_quota tier u)"
    and "distinct (map user_id (users d'))"
proof -
  have ne: "ascii ''pro'' \<noteq> ascii ''enhanced''" by (simp add: ascii_def)
  from idn have uin: "u \<in> set (users d)" and ut: "token u = tk"
    using find_SomeD [of "\<lambda>u. token u = tk" "users d" u] by (simp_all add: identity_def)
  have own: "req_userToken req = Some tk \<Longrightarrow> find_user d req = Some u"
    using find_user_identity [of req tk d] tk idn by simp
  have other: "user_id v \<noteq> user_id u"
    if "find_user d req = Some v" and "req_userToken req \<noteq> Some tk" for v
  proof -
    from that(1) have "find (\<lambda>u. Some (token u) = req_userToken req) (users d) = Some v"
      by (simp add: find_user_def split: if_splits)
    from find_SomeD [OF this] have vin: "v \<in> set (users d)" and vt: "Some (token v) = req_userToken req"
      by simp_all
    from vt that(2) ut have "v \<noteq> u" by auto
    with distinct_user_id [OF dist uin vin] show ?thesis by auto
  qed
  let ?goal = "\<exists>u'. identity d' tk = Some u'
           \<and> tier_quota tier u' =
               (if req_userToken req = Some tk \<and> req_model req = Some tier
                then js_minus (tier_quota tier u) 1 else tier_quota tier u)"
  have "?goal \<and> distinct (map user_id (users d'))"
  proof (cases "find_user d req")
    case None
    with us have same: "users d' = users d" by (simp add: commit_quota_def)
    from None own have "req_userToken req \<noteq> Some tk" by auto
    with same idn dist show ?thesis by (simp add: identity_def)
  next
    case (Some v)
    show ?thesis
    proof (cases "req_model req = Some (ascii ''enhanced'')")
      case True
      let ?f = "\<lambda>r. if user_id r = user_id v
                     then r\<lparr>quota_enhanced := js_minus (quota_enhanced v) 1\<rparr> else r"
      have m: "users d' = map ?f (users d)" using us Some True by (simp add: commit_quota_def)
      have "find (\<lambda>r. token r = tk) (map ?f (users d))
              = map_option ?f (find (\<lambda>r. token r = tk) (users d))"
        by (rule find_token_map_eq) simp
      with m idn have id': "identity d' tk = Some (?f u)" by (simp add: identity_def)
      have d': "distinct (map user_id (users d'))"
      proof -
        have "map user_id (users d') = map user_id (users d)" unfolding m by simp
        with dist show ?thesis by simp
      qed
      show ?thesis
      proof (cases "req_userToken req = Some tk")
        case own': True
        with own Some have "v = u" by simp
        with id' d' True tier ne own' show ?thesis by (auto simp: tier_quota_def)
      next
        case False
        from other [OF Some False] id' d' False show ?thesis by simp
      qed
    next
      case nenh: False
      show ?thesis
      proof (cases "req_model req = Some (ascii ''pro'')")
        case True
        let ?f = "\<lambda>r. if user_id r = user_id v
                       then r\<lparr>quota_pro := js_minus (quota_pro v) 1\<rparr> else r"
        have m: "users d' = map ?f (users d)"
          using us Some True nenh by (simp add: commit_quota_def)
        have "find (\<lambda>r. token r = tk) (map ?f (users d))
                = map_option ?f (find (\<lambda>r. token r = tk) (users d))"
          by (rule find_token_map_eq) simp
        with m idn have id': "identity d' tk = Some (?f u)" by (simp add: identity_def)
        have d': "distinct (map user_id (users d'))"
        proof -
          have "map user_id (users d') = map user_id (users d)" unfolding m by simp
          with dist show ?thesis by simp
        qed
        show ?thesis
        proof (cases "req_userToken req = Some tk")
          case own': True
          with own Some have "v = u" by simp
          with id' d' True tier ne own' show ?thesis by (auto simp: tier_quota_def)
        next
          case False
          from other [OF Some False] id' d' False show ?thesis by simp
        qed
      next
        case False
        with nenh us Some have same: "users d' = users d" by (simp add: commit_quota_def)
        from tier nenh False have "req_model req \<noteq> Some tier" by auto
        with same idn dist show ?thesis by (simp add: identity_def)
      qed
    qed
  qed
  then show ?goal and "distinct (map user_id (users d'))" by blast+
qed

lemma Ints_pos_ge1: "q \<in> \<int> \<Longrightarrow> 0 < q \<Longrightarrow> (1::rat) \<le> q"
  by (auto elim!: Ints_cases)

text \<open>One request of a run, seen from the counter of one identity and tier.\<close>

lemma quota_step:
  assumes tier: "tier = ascii ''enhanced'' \<or> tier = ascii ''pro''"
    and tk: "tk \<noteq> []"
    and dist: "distinct (map user_id (users d))"
    and idn: "identity d tk = Some u"
    and iq: "tier_quota tier u \<in> \<int>" and le: "tier_quota tier u \<le> 2 ^ 53"
  shows "\<exists>u'. identity (r_db (chat_request e req d)) tk = Some u'
           \<and> tier_quota tier u' = tier_quota tier u - of_nat (decrements tk tier d [(e, req)])
           \<and> (0 < decrements tk tier d [(e, req)] \<longrightarrow> 0 \<le> tier_quota tier u')
           \<and> successes tk tier d [(e, req)] \<le> decrements tk tier d [(e, req)]
           \<and> distinct (map user_id (users (r_db (chat_request e req d))))"
proof -
  from turn_accounts_cases [of e req d]
  consider d1 where "turn_accounts e req d" "users d1 = users d" "reaches_accounting e req d1"
      "chat_request e req d = chat_message e req d1"
    | "\<not> turn_accounts e req d" "users (r_db (chat_request e req d)) = users d"
      "r_outcome (chat_request e req d) \<noteq> Streamed"
    by blast
  then show ?thesis
  proof cases
    case 1
    have dist1: "distinct (map user_id (users d1))" using dist 1(2) by simp
    have idn1: "identity d1 tk = Some u" using idn 1(2) by (simp add: identity_def)
    have us: "users (r_db (chat_request e req d)) = users (commit_quota req (find_user d1 req) d1)"
      using reaches_accounting_users [OF 1(3)] 1(4) by simp
    from commit_quota_identity [OF dist1 idn1 tk tier us] obtain u' where
        u': "identity (r_db (chat_request e req d)) tk = Some u'"
            "tier_quota tier u' =
               (if req_userToken req = Some tk \<and> req_model req = Some tier
                then js_minus (tier_quota tier u) 1 else tier_quota tier u)"
        and d': "distinct (map user_id (users (r_db (chat_request e req d))))"
      by blast
    show ?thesis
    proof (cases "req_userToken req = Some tk \<and> req_model req = Some tier")
      case True
      then have fu: "find_user d1 req = Some u"
        using find_user_identity [of req tk d1] tk idn1 by simp
      from 1(3) have pre: "precheck e req d1 = None" by (simp add: reaches_accounting_def)
      from True have md: "req_model req = Some tier" by simp
      from precheck_premium(1) [OF tier md fu pre] have pos: "0 < tier_quota tier u" .
      from js_minus_int [OF iq pos le] have "js_minus (tier_quota tier u) 1 = tier_quota tier u - 1" .
      moreover from Ints_pos_ge1 [OF iq pos] have "0 \<le> tier_quota tier u - 1" by simp
      ultimately show ?thesis using u' d' True 1(1) by (intro exI [of _ u']) simp
    next
      case False
      with u' d' show ?thesis by (intro exI [of _ u']) auto
    qed
  next
    case 2
    from 2(2) idn have "identity (r_db (chat_request e req d)) tk = Some u"
      by (simp add: identity_def)
    with 2 dist show ?thesis by (intro exI [of _ u]) simp
  qed
qed

lemma quota_run:
  assumes tier: "tier = ascii ''enhanced'' \<or> tier = ascii ''pro''"
    and tk: "tk \<noteq> []"
    and "distinct (map user_id (users d))"
    and "identity d tk = Some u"
    and "tier_quota tier u \<in> \<int>" and "tier_quota tier u \<le> 2 ^ 53"
  shows "\<exists>u'. identity (after d rs) tk = Some u'
           \<and> tier_quota tier u' = tier_quota tier u - of_nat (decrements tk tier d rs)
           \<and> (0 \<le> tier_quota tier u \<or> 0 < decrements tk tier d rs \<longrightarrow> 0 \<le> tier_quota tier u')
           \<and> successes tk tier d rs \<le> decrements tk tier d rs"
  using assms(3-6)
proof (induction rs arbitrary: d u)
  case Nil
  then show ?case by simp
next
  case (Cons x rs)
  obtain e req where x: "x = (e, req)" by (cases x)
  let ?d = "r_db (chat_request e req d)"
  let ?n = "decrements tk tier d [(e, req)]"
  from quota_step [OF tier tk Cons.prems, of e req] obtain u1 where
      u1: "identity ?d tk = Some u1"
          "tier_quota tier u1 = tier_quota tier u - of_nat ?n"
          "0 < ?n \<longrightarrow> 0 \<le> tier_quota tier u1"
          "successes tk tier d [(e, req)] \<le> ?n"
          "distinct (map user_id (users ?d))"
    by (elim exE conjE) (rule that)
  have n01: "?n = 0 \<or> ?n = 1" by simp
  have iq1: "tier_quota tier u1 \<in> \<int>" using u1(2) Cons.prems(3) by simp
  have le1: "tier_quota tier u1 \<le> 2 ^ 53" using u1(2) Cons.prems(4) by simp
  from Cons.IH [OF u1(5) u1(1) iq1 le1] obtain u' where
      u': "identity (after ?d rs) tk = Some u'"
          "tier_quota tier u' = tier_quota tier u1 - of_nat (decrements tk tier ?d rs)"
          "0 \<le> tier_quota tier u1 \<or> 0 < decrements tk tier ?d rs \<longrightarrow> 0 \<le> tier_quota tier u'"
          "successes tk tier ?d rs \<le> decrements tk tier ?d rs"
    by (elim exE conjE) (rule that)
  have split_d: "decrements tk tier d (x # rs) = ?n + decrements tk tier ?d rs"
    unfolding x by simp
  have split_s: "successes tk tier d (x # rs)
                   = successes tk tier d [(e, req)] + successes tk tier ?d rs"
    unfolding x by simp
  have a: "identity (after d (x # rs)) tk = Some u'" unfolding x using u'(1) by simp
  have b: "tier_quota tier u' = tier_quota tier u - of_nat (decrements tk tier d (x # rs))"
    unfolding split_d using u'(2) u1(2) by simp
  have c: "0 \<le> tier_quota tier u \<or> 0 < decrements tk tier d (x # rs) \<longrightarrow> 0 \<le> tier_quota tier u'"
  proof
    assume h: "0 \<le> tier_quota tier u \<or> 0 < decrements tk tier d (x # rs)"
    have "0 \<le> tier_quota tier u1 \<or> 0 < decrements tk tier ?d rs"
    proof (cases "?n = 0")
      case True
      with h u1(2) split_d show ?thesis by auto
    next
      case False
      with u1(3) show ?thesis by simp
    qed
    with u'(3) show "0 \<le> tier_quota tier u'" by blast
  qed
  have e: "successes tk tier d (x # rs) \<le> decrements tk tier d (x # rs)"
    unfolding split_d split_s using u1(4) u'(4) by linarith
  show ?case by (rule exI [of _ u']) (intro conjI a b c e)
qed

lemma all_successes:
  assumes "list_all (\<lambda>(e, req). req_userToken req = Some tk \<and> req_model req = Some tier) rs"
    and "list_all (\<lambda>r. r_outcome r = Streamed) (serve d rs)"
  shows "successes tk tier d rs = length rs"
  using assms
proof (induction rs arbitrary: d)
  case Nil
  then show ?case by simp
next
  case (Cons x rs)
  obtain e req where x: "x = (e, req)" by (cases x)
  with Cons show ?case by simp
qed

lemma decrements_le: "decrements tk tier d rs \<le> length rs"
proof (induction rs arbitrary: d)
  case Nil
  then show ?case by simp
next
  case (Cons x rs)
  obtain e req where x: "x = (e, req)" by (cases x)
  have "decrements tk tier (r_db (chat_request e req d)) rs \<le> length rs" by (rule Cons.IH)
  then show ?case unfolding x by simp
qed

section \<open>The claims\<close>

text \<open>
  Claim C1, as amended. Requests are served one after the other, user ids are unique
  (the primary key of the table), the token \<open>tk\<close> resolves to an identity, and the
  identity's counter for a premium tier is a whole number not above \<open>2 ^ 53\<close>. Let
  \<open>rs\<close> be any run of requests, of any callers, on any tiers, with any outcomes. A turn
  \<^emph>\<open>reaches the accounting\<close> when it is admitted, passes the pre-checks, and the
  backend answers with a success status and a body that is read to its end;
  \<open>decrements\<close> counts the turns of the identity on the tier that do, \<open>successes\<close> those
  that end as a success. Then after the first \<open>k\<close> requests of the run, for every \<open>k\<close>
  up to their number:
  \<^item> the token still resolves, and the counter is its initial value less the number of
    turns of the identity on the tier that reached the accounting;
  \<^item> the counter is not negative if it was not negative at the start or if one such
    turn has been counted;
  \<^item> every success is counted: the successes are at most the decrements (a turn that
    fails in an insert after the decrement is counted and is no success), and the
    decrements are at most \<open>k\<close>.

  If all requests of the run are turns of the identity on the tier and all succeed,
  the number counted after \<open>k\<close> requests is \<open>k\<close>. One successful turn of the identity on
  the tier takes exactly one off the counter. A turn of the identity on the tier
  requested with a counter that is not positive makes no backend call, streams
  nothing, does not succeed and leaves the users table as it is.
\<close>

theorem quota_sequence:
  assumes "tier = ascii ''enhanced'' \<or> tier = ascii ''pro''"
    and "tk \<noteq> []"
    and "distinct (map user_id (users d))"
    and "identity d tk = Some u"
    and "tier_quota tier u \<in> \<int>" and "tier_quota tier u \<le> 2 ^ 53"
  shows "(\<forall>k \<le> length rs. \<exists>u'.
            identity (after d (take k rs)) tk = Some u'
            \<and> tier_quota tier u' = tier_quota tier u - of_nat (decrements tk tier d (take k rs))
            \<and> (0 \<le> tier_quota tier u \<or> 0 < decrements tk tier d (take k rs)
                 \<longrightarrow> 0 \<le> tier_quota tier u')
            \<and> successes tk tier d (take k rs) \<le> decrements tk tier d (take k rs)
            \<and> decrements tk tier d (take k rs) \<le> k)
         \<and> (list_all (\<lambda>(e, req). req_userToken req = Some tk \<and> req_model req = Some tier) rs
              \<and> list_all (\<lambda>r. r_outcome r = Streamed) (serve d rs)
             \<longrightarrow> (\<forall>k \<le> length rs. decrements tk tier d (take k rs) = k))
         \<and> (\<forall>e req. req_userToken req = Some tk \<and> req_model req = Some tier
                     \<and> r_outcome (chat_request e req d) = Streamed \<longrightarrow>
               (\<exists>u'. identity (r_db (chat_request e req d)) tk = Some u'
                     \<and> tier_quota tier u' = tier_quota tier u - 1))
         \<and> (\<forall>e req. req_userToken req = Some tk \<and> req_model req = Some tier
                     \<and> tier_quota tier u \<le> 0 \<longrightarrow>
               r_calls (chat_request e req d) = [] \<and> r_events (chat_request e req d) = []
               \<and> r_outcome (chat_request e req d) \<noteq> Streamed
               \<and> users (r_db (chat_request e req d)) = users d)"
proof (intro conjI)
  show "\<forall>k \<le> length rs. \<exists>u'.
            identity (after d (take k rs)) tk = Some u'
            \<and> tier_quota tier u' = tier_quota tier u - of_nat (decrements tk tier d (take k rs))
            \<and> (0 \<le> tier_quota tier u \<or> 0 < decrements tk tier d (take k rs)
                 \<longrightarrow> 0 \<le> tier_quota tier u')
            \<and> successes tk tier d (take k rs) \<le> decrements tk tier d (take k rs)
            \<and> decrements tk tier d (take k rs) \<le> k"
  proof (intro allI impI)
    fix k assume k: "k \<le> length rs"
    from quota_run [OF assms, of "take k rs"] obtain u' where
        u': "identity (after d (take k rs)) tk = Some u'"
            "tier_quota tier u' = tier_quota tier u - of_nat (decrements tk tier d (take k rs))"
            "0 \<le> tier_quota tier u \<or> 0 < decrements tk tier d (take k rs)
               \<longrightarrow> 0 \<le> tier_quota tier u'"
            "successes tk tier d (take k rs) \<le> decrements tk tier d (take k rs)"
      by (elim exE conjE) (rule that)
    from decrements_le [of tk tier d "take k rs"] k
    have le: "decrements tk tier d (take k rs) \<le> k" by simp
    show "\<exists>u'. identity (after d (take k rs)) tk = Some u'
            \<and> tier_quota tier u' = tier_quota tier u - of_nat (decrements tk tier d (take k rs))
            \<and> (0 \<le> tier_quota tier u \<or> 0 < decrements tk tier d (take k rs)
                 \<longrightarrow> 0 \<le> tier_quota tier u')
            \<and> successes tk tier d (take k rs) \<le> decrements tk tier d (take k rs)
            \<and> decrements tk tier d (take k rs) \<le> k"
      by (rule exI [of _ u']) (intro conjI u' le)
  qed
next
  show "list_all (\<lambda>(e, req). req_userToken req = Some tk \<and> req_model req = Some tier) rs
          \<and> list_all (\<lambda>r. r_outcome r = Streamed) (serve d rs)
        \<longrightarrow> (\<forall>k \<le> length rs. decrements tk tier d (take k rs) = k)"
  proof (intro allI impI)
    fix k
    assume all: "list_all (\<lambda>(e, req). req_userToken req = Some tk \<and> req_model req = Some tier) rs
          \<and> list_all (\<lambda>r. r_outcome r = Streamed) (serve d rs)"
      and k: "k \<le> length rs"
    from all have a4: "list_all (\<lambda>(e, req). req_userToken req = Some tk
                         \<and> req_model req = Some tier) (take k rs)"
      by (intro list_all_take) simp
    from all have a5: "list_all (\<lambda>r. r_outcome r = Streamed) (serve d (take k rs))"
      unfolding serve_take by (intro list_all_take) simp
    from all_successes [OF a4 a5] k have s: "successes tk tier d (take k rs) = k" by simp
    from quota_run [OF assms, of "take k rs"]
    have "successes tk tier d (take k rs) \<le> decrements tk tier d (take k rs)"
      by (elim exE conjE)
    moreover from decrements_le [of tk tier d "take k rs"] k
    have "decrements tk tier d (take k rs) \<le> k" by simp
    ultimately show "decrements tk tier d (take k rs) = k" using s by simp
  qed
next
  show "\<forall>e req. req_userToken req = Some tk \<and> req_model req = Some tier
                     \<and> r_outcome (chat_request e req d) = Streamed \<longrightarrow>
               (\<exists>u'. identity (r_db (chat_request e req d)) tk = Some u'
                     \<and> tier_quota tier u' = tier_quota tier u - 1)"
  proof (intro allI impI)
    fix e :: env and req :: request
    assume h: "req_userToken req = Some tk \<and> req_model req = Some tier
                     \<and> r_outcome (chat_request e req d) = Streamed"
    from quota_step [OF assms, of e req] obtain u' where
        u': "identity (r_db (chat_request e req d)) tk = Some u'"
            "tier_quota tier u' = tier_quota tier u - of_nat (decrements tk tier d [(e, req)])"
            "successes tk tier d [(e, req)] \<le> decrements tk tier d [(e, req)]"
      by (elim exE conjE) (rule that)
    from h have "successes tk tier d [(e, req)] = 1" by simp
    moreover from decrements_le [of tk tier d "[(e, req)]"]
    have "decrements tk tier d [(e, req)] \<le> 1" by simp
    ultimately have "decrements tk tier d [(e, req)] = 1" using u'(3) by linarith
    with u'(2) have "tier_quota tier u' = tier_quota tier u - 1" by simp
    with u'(1) show "\<exists>u'. identity (r_db (chat_request e req d)) tk = Some u'
                     \<and> tier_quota tier u' = tier_quota tier u - 1"
      by (intro exI [of _ u'] conjI)
  qed
next
  show "\<forall>e req. req_userToken req = Some tk \<and> req_model req = Some tier
                     \<and> tier_quota tier u \<le> 0 \<longrightarrow>
               r_calls (chat_request e req d) = [] \<and> r_events (chat_request e req d) = []
               \<and> r_outcome (chat_request e req d) \<noteq> Streamed
               \<and> users (r_db (chat_request e req d)) = users d"
  proof (intro allI impI)
    fix e :: env and req :: request
    assume "req_userToken req = Some tk \<and> req_model req = Some tier \<and> tier_quota tier u \<le> 0"
    then have r: "req_userToken req = Some tk" "req_model req = Some tier"
        "tier_quota tier u \<le> 0"
      by simp_all
    from premium_rejected [OF assms(1,2,4) r, of e]
    show "r_calls (chat_request e req d) = [] \<and> r_events (chat_request e req d) = []
               \<and> r_outcome (chat_request e req d) \<noteq> Streamed
               \<and> users (r_db (chat_request e req d)) = users d" .
  qed
qed

text \<open>
  Witness for C1: a user with two enhanced turns left asks twice in an environment
  that generates the same ids both times. The first turn succeeds; the second reaches
  the accounting and then fails on the primary key of its first message. Both are
  counted, and the counter is \<open>0\<close>.
\<close>

theorem quota_sequence_witness:
  "(\<exists>u'. identity (after db_user [(env1, req_enhanced), (env1, req_enhanced)]) (ascii ''t1'') = Some u'
         \<and> tier_quota (ascii ''enhanced'') u' = 0)
   \<and> decrements (ascii ''t1'') (ascii ''enhanced'') db_user
        [(env1, req_enhanced), (env1, req_enhanced)] = 2
   \<and> successes (ascii ''t1'') (ascii ''enhanced'') db_user
        [(env1, req_enhanced), (env1, req_enhanced)] = 1"
proof -
  let ?rs = "[(env1, req_enhanced), (env1, req_enhanced)]"
  have h1: "ascii ''enhanced'' = ascii ''enhanced'' \<or> ascii ''enhanced'' = ascii ''pro''" by simp
  have h2: "ascii ''t1'' \<noteq> []" by (simp add: ascii_def)
  have h3: "distinct (map user_id (users db_user))" by (simp add: db_user_def)
  have h4: "identity db_user (ascii ''t1'') = Some user1" by code_simp
  have q: "tier_quota (ascii ''enhanced'') user1 = 2" by (simp add: tier_quota_def user1_def)
  have h5: "tier_quota (ascii ''enhanced'') user1 \<in> \<int>" unfolding q by simp
  have h6: "tier_quota (ascii ''enhanced'') user1 \<le> 2 ^ 53" unfolding q by simp
  have dn: "decrements (ascii ''t1'') (ascii ''enhanced'') db_user ?rs = 2" by code_simp
  have sn: "successes (ascii ''t1'') (ascii ''enhanced'') db_user ?rs = 1" by code_simp
  have len: "(2::nat) \<le> length ?rs" by simp
  have t: "take 2 ?rs = ?rs" by simp
  have "\<forall>k \<le> length ?rs. \<exists>u'.
            identity (after db_user (take k ?rs)) (ascii ''t1'') = Some u'
            \<and> tier_quota (ascii ''enhanced'') u' = tier_quota (ascii ''enhanced'') user1
                 - of_nat (decrements (ascii ''t1'') (ascii ''enhanced'') db_user (take k ?rs))
            \<and> (0 \<le> tier_quota (ascii ''enhanced'') user1
                 \<or> 0 < decrements (ascii ''t1'') (ascii ''enhanced'') db_user (take k ?rs)
                 \<longrightarrow> 0 \<le> tier_quota (ascii ''enhanced'') u')
            \<and> successes (ascii ''t1'') (ascii ''enhanced'') db_user (take k ?rs)
                 \<le> decrements (ascii ''t1'') (ascii ''enhanced'') db_user (take k ?rs)
            \<and> decrements (ascii ''t1'') (ascii ''enhanced'') db_user (take k ?rs) \<le> k"
    by (rule conjunct1 [OF quota_sequence [OF h1 h2 h3 h4 h5 h6, of ?rs]])
  from mp [OF spec [OF this, where x = 2] len] obtain u' where
      u': "identity (after db_user (take 2 ?rs)) (ascii ''t1'') = Some u'"
          "tier_quota (ascii ''enhanced'') u' = tier_quota (ascii ''enhanced'') user1
             - of_nat (decrements (ascii ''t1'') (ascii ''enhanced'') db_user (take 2 ?rs))"
    by (elim exE conjE) (rule that)
  from u'(2) have "tier_quota (ascii ''enhanced'') u' = 0" unfolding t dn q by simp
  with u'(1) have a: "\<exists>u'. identity (after db_user ?rs) (ascii ''t1'') = Some u'
            \<and> tier_quota (ascii ''enhanced'') u' = 0"
    unfolding t by (intro exI [of _ u'] conjI)
  show ?thesis by (intro conjI a dn sn)
qed

text \<open>
  The claim as it was stated fails on counters the administration endpoints store
  unchecked, and on a turn that fails after the decrement:
  \<^item> with half a turn left (a recharge of \<open>0.5\<close>) the pre-check \<open>0.5 <= 0\<close> lets the turn
    through, it succeeds, and the counter is \<open>-0.5\<close>;
  \<^item> with \<open>2 ^ 53 + 2\<close> turns left a successful turn stores \<open>2 ^ 53\<close>: the subtraction
    rounds, and the counter drops by two;
  \<^item> with two turns left, a success and then a turn that fails on a primary key after
    the decrement leave the counter at \<open>0\<close>: one successful turn, two decrements.
\<close>

theorem fractional_quota_goes_negative:
  "r_outcome (chat_request env1 req_enhanced db_half) = Streamed
   \<and> map quota_enhanced (users db_half) = [1 / 2]
   \<and> map quota_enhanced (users (r_db (chat_request env1 req_enhanced db_half))) = [- (1 / 2)]
   \<and> r_outcome (chat_request env1 req_enhanced db_big) = Streamed
   \<and> map quota_enhanced (users db_big) = [9007199254740994]
   \<and> map quota_enhanced (users (r_db (chat_request env1 req_enhanced db_big)))
       = [9007199254740992]
   \<and> map quota_enhanced (users db_user) = [2]
   \<and> map (\<lambda>r. (r_outcome r, map quota_enhanced (users (r_db r))))
         (serve db_user [(env1, req_enhanced), (env1, req_enhanced)])
       = [(Streamed, [1]), (Json 500 5, [0])]"
proof -
  have a: "r_outcome (chat_request env1 req_enhanced db_half) = Streamed
     \<and> map quota_enhanced (users db_half) = [1 / 2]
     \<and> map quota_enhanced (users (r_db (chat_request env1 req_enhanced db_half))) = [- (1 / 2)]"
    by code_simp
  have b: "r_outcome (chat_request env1 req_enhanced db_big) = Streamed
     \<and> map quota_enhanced (users db_big) = [9007199254740994]
     \<and> map quota_enhanced (users (r_db (chat_request env1 req_enhanced db_big)))
         = [9007199254740992]"
    by code_simp
  have c: "map quota_enhanced (users db_user) = [2]
     \<and> map (\<lambda>r. (r_outcome r, map quota_enhanced (users (r_db r))))
           (serve db_user [(env1, req_enhanced), (env1, req_enhanced)])
         = [(Streamed, [1]), (Json 500 5, [0])]"
    by code_simp
  from a b c show ?thesis by simp
qed

text \<open>
  Claim C2. The request is admitted, passes the checks before the backend call, and the
  backend answers with a non-success status or without a body. Then the turn ends with
  the single JSON answer 500 with code 4, nothing is streamed, and the database is the
  one the admission step left: no message, no conversation, no quota, no audit row and
  no metric has changed, and the counter of the address is as admission wrote it.
\<close>

theorem upstream_error:
  assumes "checkIpRules (req_ip req) (ip_today e) d = Admitted d1"
    and "precheck e req d1 = None"
    and "fetch e (build_payload e req d1) = FetchResponse ok body"
    and "\<not> ok \<or> body = None"
  shows "chat_request e req d =
           \<lparr>r_db = d1, r_outcome = Json 500 4, r_events = [], r_calls = [build_payload e req d1]\<rparr>
         \<and> messages d1 = messages d \<and> conversations d1 = conversations d
         \<and> users d1 = users d \<and> audit_logs d1 = audit_logs d
         \<and> metrics_daily d1 = metrics_daily d
         \<and> ip_requests d1 =
             (if limit_of d (req_ip req) = None \<or> limit_of d (req_ip req) = Some 0
              then ip_requests d
              else (ip_requests d)((req_ip req, ip_today e) \<mapsto>
                      current_count d (req_ip req) (ip_today e) + 1))"
proof -
  have "chat_request e req d = chat_message e req d1"
    using assms(1) by (simp add: chat_request_def)
  with chat_message_upstream [OF assms(2-4)]
  have "chat_request e req d =
          \<lparr>r_db = d1, r_outcome = Json 500 4, r_events = [], r_calls = [build_payload e req d1]\<rparr>"
    by simp
  moreover note d1 = checkIpRules_Admitted [OF assms(1)]
  moreover have "messages d1 = messages d" "conversations d1 = conversations d"
      "users d1 = users d" "audit_logs d1 = audit_logs d" "metrics_daily d1 = metrics_daily d"
    by (subst d1, simp)+
  moreover have "ip_requests d1 =
             (if limit_of d (req_ip req) = None \<or> limit_of d (req_ip req) = Some 0
              then ip_requests d
              else (ip_requests d)((req_ip req, ip_today e) \<mapsto>
                      current_count d (req_ip req) (ip_today e) + 1))"
    by (subst d1, simp)
  ultimately show ?thesis by simp
qed

text \<open>Witness for C2: the failing backend, from an address limited to two requests a day.\<close>

theorem upstream_error_witness:
  "r_outcome (chat_request env_fail req1 db_limit2) = Json 500 4
   \<and> r_events (chat_request env_fail req1 db_limit2) = []
   \<and> messages (r_db (chat_request env_fail req1 db_limit2)) = []
   \<and> conversations (r_db (chat_request env_fail req1 db_limit2)) = []
   \<and> ip_requests (r_db (chat_request env_fail req1 db_limit2))
        (ascii ''10.0.0.1'', ascii ''2024-05-01'') = Some 1"
proof -
  let ?d1 = "db_limit2\<lparr>ip_requests := (ip_requests db_limit2)
               ((ascii ''10.0.0.1'', ascii ''2024-05-01'') \<mapsto> 1)\<rparr>"
  have h1: "checkIpRules (req_ip req1) (ip_today env_fail) db_limit2 = Admitted ?d1"
    by (simp add: checkIpRules_def db_limit2_def db0_def req1_def env_fail_def env1_def)
  have h2: "precheck env_fail req1 ?d1 = None"
    by code_simp
  have h3: "fetch env_fail (build_payload env_fail req1 ?d1) = FetchResponse False None"
    by (simp add: env_fail_def)
  have h4: "\<not> False \<or> (None :: (jsstring list \<times> bool) option) = None" by simp
  from upstream_error [OF h1 h2 h3 h4]
  have eq: "chat_request env_fail req1 db_limit2 =
              \<lparr>r_db = ?d1, r_outcome = Json 500 4, r_events = [],
               r_calls = [build_payload env_fail req1 ?d1]\<rparr>"
    by (rule conjunct1)
  show ?thesis unfolding eq by (simp add: db_limit2_def db0_def)
qed

text \<open>
  Claim C3, as amended. Some non-empty entry of the word list occurs in the latest user
  message, and the caller is a guest or an identity whose tag is not \<open>trusted\<close>. Then
  the handler answers 400 with code 2 and does nothing else: no backend call, nothing
  streamed, the database unchanged (no message, no quota decrement).
\<close>

theorem input_moderation:
  assumes "\<exists>w \<in> set (sensitive_words d). w \<noteq> [] \<and> sublist w (lastContent req)"
    and "case find_user d req of None \<Rightarrow> True | Some u \<Rightarrow> tag u \<noteq> ascii ''trusted''"
  shows "chat_message e req d =
           \<lparr>r_db = d, r_outcome = Json 400 2, r_events = [], r_calls = []\<rparr>"
proof -
  have "checkSensitive d (lastContent req)"
    using assms(1) by (simp add: checkSensitive_iff)
  moreover have "userTag (find_user d req) \<noteq> ascii ''trusted''"
    using assms(2) by (cases "find_user d req") (simp_all add: userTag_def ascii_def)
  ultimately have "precheck e req d = Some (400, 2)"
    by (simp add: precheck_def)
  then show ?thesis by (rule chat_message_rejected)
qed

text \<open>Witness for C3: the word \<open>bad\<close> in a guest's message.\<close>

theorem input_moderation_witness:
  "chat_message env1 req_bad db_bad =
     \<lparr>r_db = db_bad, r_outcome = Json 400 2, r_events = [], r_calls = []\<rparr>"
proof -
  have "sublist (ascii ''bad'') (lastContent req_bad)" by code_simp
  then have h1: "\<exists>w \<in> set (sensitive_words db_bad). w \<noteq> [] \<and> sublist w (lastContent req_bad)"
    by (simp add: db_bad_def db0_def ascii_def)
  have "find_user db_bad req_bad = None" by code_simp
  then have h2: "case find_user db_bad req_bad of None \<Rightarrow> True
                 | Some u \<Rightarrow> tag u \<noteq> ascii ''trusted''"
    by simp
  from input_moderation [OF h1 h2] show ?thesis .
qed

text \<open>
  Counterexample to C3 as stated: the empty string is an entry of the word list and
  occurs in every message, yet the guest's turn reaches the backend, is streamed and
  stores its two messages.
\<close>

theorem empty_word_not_screened:
  "[] \<in> set (sensitive_words db_blank)
   \<and> sublist [] (lastContent req1)
   \<and> find_user db_blank req1 = None
   \<and> length (r_calls (chat_message env1 req1 db_blank)) = 1
   \<and> r_outcome (chat_message env1 req1 db_blank) = Streamed
   \<and> length (messages (r_db (chat_message env1 req1 db_blank))) = 2"
  by code_simp

text \<open>
  Claim C4, as amended. The turn passes the checks, the backend streams to the end, some
  non-empty entry of the word list occurs in the accumulated output, and \<open>nanoid\<close>
  returns unused ids. Then the turn completes as a success: the stored assistant message,
  the last row of the table, has the fixed refusal as content, a replacement event with
  the refusal is sent, the conversation exists, one audit row is appended, today's
  request total grows by one, and the quota of the requested premium tier of a logged-in
  caller is one less.
\<close>

theorem output_moderation:
  assumes "precheck e req d = None"
    and "fetch e (build_payload e req d) = FetchResponse True (Some (chunks, True))"
    and "\<exists>w \<in> set (sensitive_words d). w \<noteq> [] \<and> sublist w (st_content (consume_stream e chunks))"
    and "fresh_ids e req d"
  shows "r_outcome (chat_message e req d) = Streamed
         \<and> messages (r_db (chat_message e req d)) =
             messages d @ (if lastContent req \<noteq> [] then [user_message e req] else [])
               @ [assistant_message e req refusal (st_usage (consume_stream e chunks))]
         \<and> msg_content (last (messages (r_db (chat_message e req d)))) = refusal
         \<and> Replace refusal \<in> set (r_events (chat_message e req d))
         \<and> find (\<lambda>c. conv_id c = convId e req) (conversations (r_db (chat_message e req d))) \<noteq> None
         \<and> audit_logs (r_db (chat_message e req d)) =
             audit_logs d @ [chat_log e req (find_user d req)]
         \<and> map_option total_requests (metrics_daily (r_db (chat_message e req d)) (today e)) =
             Some (total_requests (existingDaily d (today e)) + 1)
         \<and> (\<forall>u. find_user d req = Some u \<longrightarrow>
               find_user (r_db (chat_message e req d)) req =
                 Some (if req_model req = Some (ascii ''enhanced'')
                       then u\<lparr>quota_enhanced := js_minus (quota_enhanced u) 1\<rparr>
                       else if req_model req = Some (ascii ''pro'')
                       then u\<lparr>quota_pro := js_minus (quota_pro u) 1\<rparr>
                       else u))
         \<and> (\<forall>u tier. find_user d req = Some u \<and> req_model req = Some tier
                    \<and> (tier = ascii ''enhanced'' \<or> tier = ascii ''pro'')
                    \<and> tier_quota tier u \<in> \<int> \<and> tier_quota tier u \<le> 2 ^ 53 \<longrightarrow>
               js_minus (tier_quota tier u) 1 = tier_quota tier u - 1)"
proof -
  let ?st = "consume_stream e chunks"
  let ?p = "build_payload e req d"
  let ?r = "chat_message e req d"
  have cm: "?r = post_stream e req d ?p ?st"
    by (rule chat_message_streamed [OF assms(1,2)])
  note ps = post_stream_fresh [OF assms(4), of ?p ?st]
  have flagged: "checkSensitive d (st_content ?st)"
    using assms(3) by (simp add: checkSensitive_iff)
  then have scr: "screened d (st_content ?st) = refusal" by (simp add: screened_def)
  have o: "r_outcome ?r = Streamed" unfolding cm ps by simp
  have m: "messages (r_db ?r) =
             messages d @ (if lastContent req \<noteq> [] then [user_message e req] else [])
               @ [assistant_message e req refusal (st_usage ?st)]"
    unfolding cm ps scr by simp
  have l: "msg_content (last (messages (r_db ?r))) = refusal"
    unfolding m by simp
  have ev: "Replace refusal \<in> set (r_events ?r)"
    unfolding cm ps using flagged by simp
  have c: "find (\<lambda>c. conv_id c = convId e req) (conversations (r_db ?r)) \<noteq> None"
    unfolding cm ps by (simp add: accounted_conversation)
  have a: "audit_logs (r_db ?r) = audit_logs d @ [chat_log e req (find_user d req)]"
    unfolding cm ps by simp
  have "metrics_daily (r_db ?r) = metrics_daily (record_metrics e req (st_usage ?st) d)"
    unfolding cm ps by simp
  then have t: "map_option total_requests (metrics_daily (r_db ?r) (today e)) =
             Some (total_requests (existingDaily d (today e)) + 1)"
    by (simp add: record_metrics_daily)
  have us: "users (r_db ?r) = users (commit_quota req (find_user d req) d)"
    unfolding cm ps by simp
  have q: "\<forall>u. find_user d req = Some u \<longrightarrow>
               find_user (r_db ?r) req =
                 Some (if req_model req = Some (ascii ''enhanced'')
                       then u\<lparr>quota_enhanced := js_minus (quota_enhanced u) 1\<rparr>
                       else if req_model req = Some (ascii ''pro'')
                       then u\<lparr>quota_pro := js_minus (quota_pro u) 1\<rparr>
                       else u)"
  proof (intro allI impI)
    fix u assume u: "find_user d req = Some u"
    with us have "users (r_db ?r) = users (commit_quota req (Some u) d)" by simp
    from find_user_commit_quota [OF u this]
    show "find_user (r_db ?r) req =
                 Some (if req_model req = Some (ascii ''enhanced'')
                       then u\<lparr>quota_enhanced := js_minus (quota_enhanced u) 1\<rparr>
                       else if req_model req = Some (ascii ''pro'')
                       then u\<lparr>quota_pro := js_minus (quota_pro u) 1\<rparr>
                       else u)" .
  qed
  have z: "\<forall>u tier. find_user d req = Some u \<and> req_model req = Some tier
                    \<and> (tier = ascii ''enhanced'' \<or> tier = ascii ''pro'')
                    \<and> tier_quota tier u \<in> \<int> \<and> tier_quota tier u \<le> 2 ^ 53 \<longrightarrow>
               js_minus (tier_quota tier u) 1 = tier_quota tier u - 1"
  proof (intro allI impI)
    fix u :: user and tier
    assume h: "find_user d req = Some u \<and> req_model req = Some tier
                    \<and> (tier = ascii ''enhanced'' \<or> tier = ascii ''pro'')
                    \<and> tier_quota tier u \<in> \<int> \<and> tier_quota tier u \<le> 2 ^ 53"
    then have u: "find_user d req = Some u" and md: "req_model req = Some tier"
      and tr: "tier = ascii ''enhanced'' \<or> tier = ascii ''pro''"
      and iq: "tier_quota tier u \<in> \<int>" and le: "tier_quota tier u \<le> 2 ^ 53"
      by simp_all
    from precheck_premium(1) [OF tr md u assms(1)] have "0 < tier_quota tier u" .
    from js_minus_int [OF iq this le]
    show "js_minus (tier_quota tier u) 1 = tier_quota tier u - 1" .
  qed
  from o m l ev c a t q z show ?thesis by blast
qed

text \<open>Witness for C4: the output \<open>hi\<close> is on the word list; an enhanced turn of a user with quota 2.\<close>

theorem output_moderation_witness:
  "r_outcome (chat_message env1 req_enhanced db_hi) = Streamed
   \<and> msg_content (last (messages (r_db (chat_message env1 req_enhanced db_hi)))) = refusal
   \<and> Replace refusal \<in> set (r_events (chat_message env1 req_enhanced db_hi))
   \<and> find_user (r_db (chat_message env1 req_enhanced db_hi)) req_enhanced
       = Some (user1\<lparr>quota_enhanced := 1\<rparr>)"
proof -
  have h1: "precheck env1 req_enhanced db_hi = None" by code_simp
  have h2: "fetch env1 (build_payload env1 req_enhanced db_hi)
              = FetchResponse True (Some (chunks1, True))"
    by (simp add: env1_def)
  have "sublist (ascii ''hi'') (st_content (consume_stream env1 chunks1))" by code_simp
  then have h3: "\<exists>w \<in> set (sensitive_words db_hi).
                   w \<noteq> [] \<and> sublist w (st_content (consume_stream env1 chunks1))"
    by (simp add: db_hi_def db_user_def db0_def ascii_def)
  have h4: "fresh_ids env1 req_enhanced db_hi"
    by (simp add: fresh_ids_def db_hi_def db_user_def db0_def env1_def ascii_def)
  have u: "find_user db_hi req_enhanced = Some user1" by code_simp
  have q: "quota_enhanced user1 = 2" by (simp add: user1_def)
  have m: "req_model req_enhanced = Some (ascii ''enhanced'')"
    by (simp add: req_enhanced_def)
  have j: "js_minus 2 1 = 1" by code_simp
  from output_moderation [OF h1 h2 h3 h4] u q m j show ?thesis by simp
qed

text \<open>
  Counterexample to C4 as stated: the empty string is on the word list and occurs in the
  output \<open>hi\<close>, which is stored and delivered as it is, with no replacement event.
\<close>

theorem empty_word_output_kept:
  "[] \<in> set (sensitive_words db_blank)
   \<and> sublist [] (st_content (consume_stream env1 chunks1))
   \<and> fetch env1 (build_payload env1 req1 db_blank) = FetchResponse True (Some (chunks1, True))
   \<and> r_outcome (chat_message env1 req1 db_blank) = Streamed
   \<and> msg_content (last (messages (r_db (chat_message env1 req1 db_blank)))) = ascii ''hi''
   \<and> ascii ''hi'' \<noteq> refusal
   \<and> r_events (chat_message env1 req1 db_blank) = [Delta (ascii ''hi''), DoneMarker, Final 3 4 7 10 5]"
  by code_simp

text \<open>
  Claim C5, as amended. An admitted request adds exactly one to the counter row of its
  address and date, creating it with 1 when absent, when the address has a limit rule
  with a non-zero limit; for any other address the counters are left as they were. This
  holds whatever the handler does afterwards.
\<close>

theorem admission_counter:
  assumes "admitted (chat_request e req d)"
  shows "ip_requests (r_db (chat_request e req d)) =
           (if limit_of d (req_ip req) = None \<or> limit_of d (req_ip req) = Some 0
            then ip_requests d
            else (ip_requests d)((req_ip req, ip_today e) \<mapsto>
                    current_count d (req_ip req) (ip_today e) + 1))"
proof (cases "blocked d (req_ip req)")
  case True
  then have "checkIpRules (req_ip req) (ip_today e) d = Blocked"
    by (simp add: checkIpRules_def blocked_def)
  with assms show ?thesis by (simp add: chat_request_def admitted_def)
next
  case nb: False
  show ?thesis
  proof (cases "limit_of d (req_ip req) = None \<or> limit_of d (req_ip req) = Some 0")
    case True
    from checkIpRules_unlimited [OF nb True, of "ip_today e"] True show ?thesis
      by (simp add: chat_request_def)
  next
    case False
    then obtain lmt where lmt: "limit_of d (req_ip req) = Some lmt" "lmt \<noteq> 0" by auto
    from checkIpRules_limited [OF nb lmt, of "ip_today e"] assms False show ?thesis
      by (simp add: chat_request_def admitted_def split: if_splits)
  qed
qed

text \<open>Witness for C5: the first request of an address limited to two a day.\<close>

theorem admission_counter_witness:
  "admitted (chat_request env1 req1 db_limit2)
   \<and> ip_requests (r_db (chat_request env1 req1 db_limit2)) (ascii ''10.0.0.1'', ascii ''2024-05-01'')
       = Some 1"
proof -
  have nb: "\<not> blocked db_limit2 (req_ip req1)"
    by (simp add: blocked_def db_limit2_def db0_def)
  have lmt: "limit_of db_limit2 (req_ip req1) = Some 2"
    by (simp add: limit_of_def db_limit2_def db0_def req1_def)
  have cnt: "current_count db_limit2 (req_ip req1) (ip_today env1) = 0"
    by (simp add: current_count_def db_limit2_def db0_def)
  have adm: "admitted (chat_request env1 req1 db_limit2)"
    using chat_request_limited_step(1) [OF nb lmt _ refl refl] cnt by simp
  from admission_counter [OF adm] lmt cnt adm show ?thesis
    by (simp add: req1_def env1_def)
qed

text \<open>
  Counterexample to C5 as stated: with no rule for its address, a request is admitted
  and no counter row exists afterwards.
\<close>

theorem no_rule_no_counter:
  "admitted (chat_request env1 req1 db0)
   \<and> ip_requests (r_db (chat_request env1 req1 db0)) (req_ip req1, ip_today env1) = None"
proof -
  have "checkIpRules (req_ip req1) (ip_today env1) db0 = Admitted db0"
    by (simp add: checkIpRules_def db0_def)
  then show ?thesis
    by (simp add: chat_request_def chat_message_admitted) (simp add: db0_def)
qed

text \<open>
  Claim C6. An address \<open>ip\<close> that is not blocked has the daily limit \<open>lmt > 0\<close> and no
  counter row yet for \<open>date\<close>. Of the requests it sends on that date, served one after
  the other, the first \<open>lmt\<close> are admitted and the next one is answered 429 with code 10
  and changes nothing. \<open>checkIpRules\<close> rejects for rate limiting exactly when the address
  is not blocked and today's count has reached its non-zero limit. A request on another
  date, for which there is no row, is admitted and starts that date's count at 1.
\<close>

theorem daily_limit:
  assumes "\<not> blocked d ip" and "limit_of d ip = Some lmt" and "0 < lmt"
    and "ip_requests d (ip, date) = None"
    and "list_all (\<lambda>(e, req). req_ip req = ip \<and> ip_today e = date) rs"
    and "int (length rs) = lmt"
    and "req_ip req = ip" and "ip_today e = date"
    and "req_ip req' = ip" and "ip_today e' = date'"
    and "date' \<noteq> date" and "ip_requests d (ip, date') = None"
  shows "list_all admitted (serve d rs)
         \<and> r_outcome (chat_request e req (after d rs)) = Json 429 10
         \<and> r_db (chat_request e req (after d rs)) = after d rs
         \<and> (checkIpRules ip date d' = RateLimited
              \<longleftrightarrow> \<not> blocked d' ip
                  \<and> (\<exists>l. limit_of d' ip = Some l \<and> l \<noteq> 0 \<and> l \<le> current_count d' ip date))
         \<and> admitted (chat_request e' req' (after d rs))
         \<and> current_count (r_db (chat_request e' req' (after d rs))) ip date' = 1"
proof -
  have c0: "current_count d ip date = 0"
    using assms(4) by (simp add: current_count_def)
  have lim0: "lmt \<noteq> 0" using assms(3) by simp
  have run: "list_all admitted (serve d rs)"
      "current_count (after d rs) ip date = lmt"
      "ip_rules (after d rs) = ip_rules d"
      "ip_requests (after d rs) (ip, date') = None"
    using serve_limited [OF assms(1,2) lim0 assms(5), of date'] c0 assms(6,11,12) by simp_all
  have nb: "\<not> blocked (after d rs) ip" using assms(1) blocked_cong [OF run(3)] by simp
  have lo: "limit_of (after d rs) ip = Some lmt" using assms(2) limit_of_cong [OF run(3)] by simp
  have last: "r_outcome (chat_request e req (after d rs)) = Json 429 10
              \<and> r_db (chat_request e req (after d rs)) = after d rs"
    using chat_request_limited_step(2) [OF nb lo lim0 assms(7,8)] run(2) by simp
  have iff: "checkIpRules ip date d' = RateLimited
              \<longleftrightarrow> \<not> blocked d' ip
                  \<and> (\<exists>l. limit_of d' ip = Some l \<and> l \<noteq> 0 \<and> l \<le> current_count d' ip date)"
  proof (cases "blocked d' ip")
    case True
    then show ?thesis by (simp add: checkIpRules_def blocked_def)
  next
    case nb': False
    show ?thesis
    proof (cases "limit_of d' ip = None \<or> limit_of d' ip = Some 0")
      case True
      from checkIpRules_unlimited [OF nb' True, of date] True show ?thesis by auto
    next
      case False
      then obtain l where l: "limit_of d' ip = Some l" "l \<noteq> 0" by auto
      from checkIpRules_limited [OF nb' l, of date] nb' l show ?thesis by simp
    qed
  qed
  have c1: "current_count (after d rs) ip date' = 0"
    using run(4) by (simp add: current_count_def)
  have "admitted (chat_request e' req' (after d rs))
        \<and> current_count (r_db (chat_request e' req' (after d rs))) ip date' = 1"
    using chat_request_limited_step(1) [OF nb lo lim0 assms(9,10)] c1 assms(3) by simp
  with run(1) last iff show ?thesis by simp
qed

text \<open>Witness for C6: a limit of two, two requests on 1 May, a third, and one on 2 May.\<close>

theorem daily_limit_witness:
  "list_all admitted (serve db_limit2 [(env1, req1), (env1, req1)])
   \<and> r_outcome (chat_request env1 req1 (after db_limit2 [(env1, req1), (env1, req1)])) = Json 429 10
   \<and> admitted (chat_request (env1\<lparr>ip_today := ascii ''2024-05-02''\<rparr>) req1
                 (after db_limit2 [(env1, req1), (env1, req1)]))"
proof -
  have h1: "\<not> blocked db_limit2 (ascii ''10.0.0.1'')"
    by (simp add: blocked_def db_limit2_def db0_def)
  have h2: "limit_of db_limit2 (ascii ''10.0.0.1'') = Some 2"
    by (simp add: limit_of_def db_limit2_def db0_def)
  have h3: "(0::int) < 2" by simp
  have h4: "ip_requests db_limit2 (ascii ''10.0.0.1'', ascii ''2024-05-01'') = None"
    by (simp add: db_limit2_def db0_def)
  have h5: "list_all (\<lambda>(e, req). req_ip req = ascii ''10.0.0.1'' \<and> ip_today e = ascii ''2024-05-01'')
              [(env1, req1), (env1, req1)]"
    by (simp add: env1_def req1_def)
  have h6: "int (length [(env1, req1), (env1, req1)]) = 2" by simp
  have h7: "req_ip req1 = ascii ''10.0.0.1''" by (simp add: req1_def)
  have h8: "ip_today env1 = ascii ''2024-05-01''" by (simp add: env1_def)
  have h10: "ip_today (env1\<lparr>ip_today := ascii ''2024-05-02''\<rparr>) = ascii ''2024-05-02''" by simp
  have h11: "ascii ''2024-05-02'' \<noteq> ascii ''2024-05-01''" by (simp add: ascii_def)
  have h12: "ip_requests db_limit2 (ascii ''10.0.0.1'', ascii ''2024-05-02'') = None"
    by (simp add: db_limit2_def db0_def)
  from daily_limit [OF h1 h2 h3 h4 h5 h6 h7 h8 h7 h10 h11 h12]
  show ?thesis by blast
qed

text \<open>
  Claim C9. After a successful turn whose latest user message is not empty, with a clock
  that does not go back between the two inserts, reading the conversation by its id
  succeeds; the rows it returns that were not there before are exactly the user message
  followed by the assistant message; the rows from before are returned as before; the
  whole list is in ascending order of creation time; and the prompt and completion counts
  of the assistant row are those of the final event of the stream.
\<close>

theorem round_trip:
  assumes "r_outcome (chat_message e req d) = Streamed"
    and "lastContent req \<noteq> []"
    and "now_user_msg e \<le> now_asst_msg e"
  shows "\<exists>conv msgs (asst :: message) total qe qp.
           get_conversation (r_db (chat_message e req d)) (convId e req) = Some (conv, msgs)
           \<and> filter (\<lambda>m. msg_id m \<notin> set (map msg_id (messages d))) msgs
               = [user_message e req, asst]
           \<and> filter (\<lambda>m. msg_id m \<in> set (map msg_id (messages d))) msgs
               = sort_key msg_created_at
                   (filter (\<lambda>m. msg_conversation_id m = convId e req) (messages d))
           \<and> sorted (map msg_created_at msgs)
           \<and> msg_role (user_message e req) = ascii ''user''
           \<and> msg_role asst = ascii ''assistant''
           \<and> last (r_events (chat_message e req d))
               = Final (usage_prompt asst) (usage_completion asst) total qe qp"
proof -
  from chat_message_Streamed [OF assms(1)] obtain chunks where
      pre: "precheck e req d = None"
      and f: "fetch e (build_payload e req d) = FetchResponse True (Some (chunks, True))"
    by blast
  let ?st = "consume_stream e chunks"
  let ?p = "build_payload e req d"
  let ?r = "chat_message e req d"
  let ?cid = "convId e req"
  let ?u = "user_message e req"
  let ?a = "assistant_message e req (screened d (st_content ?st)) (st_usage ?st)"
  let ?old = "filter (\<lambda>m. msg_conversation_id m = ?cid) (messages d)"
  let ?new = "\<lambda>m. msg_id m \<notin> set (map msg_id (messages d))"
  have cm: "?r = post_stream e req d ?p ?st"
    by (rule chat_message_streamed [OF pre f])
  with assms(1) have fresh: "fresh_ids e req d" by (simp add: post_stream_Streamed_iff)
  note ps = post_stream_fresh [OF fresh, of ?p ?st]
  have m: "messages (r_db ?r) = messages d @ [?u, ?a]"
    unfolding cm ps using assms(2) by simp
  have "find (\<lambda>c. conv_id c = ?cid) (conversations (r_db ?r)) \<noteq> None"
    unfolding cm ps by (simp add: accounted_conversation)
  then obtain conv where conv: "find (\<lambda>c. conv_id c = ?cid) (conversations (r_db ?r)) = Some conv"
    by auto
  let ?msgs = "sort_key msg_created_at (?old @ [?u, ?a])"
  have g: "get_conversation (r_db ?r) ?cid = Some (conv, ?msgs)"
    using conv m by (simp add: get_conversation_def)
  have newu: "?new ?u" "?new ?a"
    using fresh assms(2) by (simp_all add: fresh_ids_def)
  have old_none: "filter ?new ?old = []"
    by (rule filter_False) auto
  have old_all: "filter (\<lambda>m. \<not> ?new m) ?old = ?old"
    by (rule filter_True) auto
  have n: "filter ?new ?msgs = [?u, ?a]"
  proof -
    have "filter ?new ?msgs = sort_key msg_created_at (filter ?new (?old @ [?u, ?a]))"
      by (rule filter_sort)
    also have "filter ?new (?old @ [?u, ?a]) = [?u, ?a]"
      using newu old_none by simp
    also have "sort_key msg_created_at [?u, ?a] = [?u, ?a]"
      using assms(3) by (simp add: sort_key_two)
    finally show ?thesis .
  qed
  have o: "filter (\<lambda>m. msg_id m \<in> set (map msg_id (messages d))) ?msgs
             = sort_key msg_created_at ?old"
  proof -
    have "filter (\<lambda>m. \<not> ?new m) ?msgs
            = sort_key msg_created_at (filter (\<lambda>m. \<not> ?new m) (?old @ [?u, ?a]))"
      by (rule filter_sort)
    also have "filter (\<lambda>m. \<not> ?new m) (?old @ [?u, ?a]) = ?old"
      using newu old_all by simp
    finally show ?thesis by simp
  qed
  have s: "sorted (map msg_created_at ?msgs)" by simp
  have ev: "last (r_events ?r) = final_event e (find_user d req) (st_usage ?st) (r_db ?r)"
    unfolding cm ps by simp
  obtain qe qp where fin: "final_event e (find_user d req) (st_usage ?st) (r_db ?r)
      = Final (usage_prompt ?a) (usage_completion ?a) (total_tokens (st_usage ?st)) qe qp"
    by (simp add: final_event_def Let_def)
  have roles: "msg_role ?u = ascii ''user''" "msg_role ?a = ascii ''assistant''"
    by (simp_all add: user_message_def assistant_message_def)
  from g n o s roles ev fin show ?thesis by (metis (no_types, lifting))
qed

text \<open>Witness for C9: the guest's \<open>hello\<close>, both rows inserted within the same millisecond.\<close>

theorem round_trip_witness:
  "\<exists>conv msgs (asst :: message) total qe qp.
     get_conversation (r_db (chat_message env1 req1 db0)) (convId env1 req1) = Some (conv, msgs)
     \<and> filter (\<lambda>m. msg_id m \<notin> set (map msg_id (messages db0))) msgs
         = [user_message env1 req1, asst]
     \<and> sorted (map msg_created_at msgs)
     \<and> msg_role asst = ascii ''assistant''
     \<and> last (r_events (chat_message env1 req1 db0))
         = Final (usage_prompt asst) (usage_completion asst) total qe qp"
proof -
  have h1: "r_outcome (chat_message env1 req1 db0) = Streamed" by code_simp
  have h2: "lastContent req1 \<noteq> []" by code_simp
  have h3: "now_user_msg env1 \<le> now_asst_msg env1" by (simp add: env1_def)
  from round_trip [OF h1 h2 h3] show ?thesis by blast
qed

text \<open>
  Claim C10. The requested model is neither \<open>enhanced\<close> nor \<open>pro\<close>: any other string, or
  none at all. Then no quota is checked and none is decremented, also for a logged-in
  identity: the users table is left as it was, the turn is never answered with code 6, 7
  or 8, and whether it reaches the backend depends on moderation and the API key alone.
  When the models table has no row for the requested tier (\<open>normal\<close> when none is
  given), the backend is called with the model of \<open>modelMap.normal\<close>.
\<close>

theorem other_tiers:
  assumes "req_model req \<noteq> Some (ascii ''enhanced'')" and "req_model req \<noteq> Some (ascii ''pro'')"
  shows "users (r_db (chat_message e req d)) = users d
         \<and> r_outcome (chat_message e req d) \<noteq> Json 400 6
         \<and> r_outcome (chat_message e req d) \<noteq> Json 400 7
         \<and> r_outcome (chat_message e req d) \<noteq> Json 400 8
         \<and> precheck e req d =
             (if checkSensitive d (lastContent req)
                 \<and> userTag (find_user d req) \<noteq> ascii ''trusted''
              then Some (400, 2)
              else if apiKey e = [] then Some (500, 3) else None)
         \<and> r_calls (chat_message e req d) =
             (if precheck e req d = None then [build_payload e req d] else [])
         \<and> (find (\<lambda>m. model_tier m = or_else (req_model req) (ascii ''normal'')) (models d) = None
              \<longrightarrow> p_model (build_payload e req d) = modelMap_normal e)"
proof -
  note pre = precheck_other_tier [OF assms, of e d]
  have u: "users (r_db (chat_message e req d)) = users d"
    using chat_message_users [of e req d] commit_quota_other_tier [OF assms] by auto
  have o: "r_outcome (chat_message e req d) \<noteq> Json 400 6
         \<and> r_outcome (chat_message e req d) \<noteq> Json 400 7
         \<and> r_outcome (chat_message e req d) \<noteq> Json 400 8"
  proof (cases "precheck e req d")
    case None
    from chat_message_outcome_passed [OF None] show ?thesis by auto
  next
    case (Some sc)
    with pre have "sc = (400, 2) \<or> sc = (500, 3)" by (auto split: if_splits)
    with Some show ?thesis by (auto simp: chat_message_def)
  qed
  have c: "r_calls (chat_message e req d) =
             (if precheck e req d = None then [build_payload e req d] else [])"
  proof (cases "precheck e req d")
    case None
    then show ?thesis by (simp add: chat_message_calls)
  next
    case (Some sc)
    then show ?thesis by (cases sc) (simp add: chat_message_def)
  qed
  have m: "find (\<lambda>m. model_tier m = or_else (req_model req) (ascii ''normal'')) (models d) = None
              \<longrightarrow> p_model (build_payload e req d) = modelMap_normal e"
    by (simp add: build_payload_def selectedModel_def or_else_def)
  from u o pre c m show ?thesis by simp
qed

text \<open>Witness for C10: a logged-in user asks for the unknown tier \<open>turbo\<close>.\<close>

theorem other_tiers_witness:
  "users (r_db (chat_message env1 req_turbo db_user)) = users db_user
   \<and> r_outcome (chat_message env1 req_turbo db_user) = Streamed
   \<and> map p_model (r_calls (chat_message env1 req_turbo db_user)) = [ascii ''gpt-4o-mini'']"
proof -
  have h1: "req_model req_turbo \<noteq> Some (ascii ''enhanced'')"
    and h2: "req_model req_turbo \<noteq> Some (ascii ''pro'')"
    by (simp_all add: req_turbo_def req1_def ascii_def)
  have h3: "find (\<lambda>m. model_tier m = or_else (req_model req_turbo) (ascii ''normal''))
              (models db_user) = None"
    by (simp add: db_user_def db0_def)
  have h4: "precheck env1 req_turbo db_user = None" by code_simp
  have h5: "r_outcome (chat_message env1 req_turbo db_user) = Streamed" by code_simp
  have h6: "modelMap_normal env1 = ascii ''gpt-4o-mini''" by (simp add: env1_def)
  from other_tiers [OF h1 h2, of env1 db_user] h3 h4 h5 h6 show ?thesis
    by simp
qed

end
